theory Spec2Isabelle
  imports Complex_Main
begin

section \<open>Python values shared by both source files\<close>

text \<open>
  Floating-point tensors are modelled in exact arithmetic: an entry is a \<^typ>\<open>real\<close>.
  Python's \<open>int\<close> is \<^typ>\<open>int\<close>; a \<open>range(n)\<close> is \<open>[0..<nat n]\<close>, which is
  empty for \<open>n \<le> 0\<close> as in Python.
\<close>

datatype error = ValueError | AttributeError | RuntimeError

text \<open>
  Python's \<open>slice.indices\<close> for a positive step: a negative bound counts from the end and
  is clamped at 0, a non-negative bound is clamped at the length.
\<close>

definition slice_index :: "int \<Rightarrow> nat \<Rightarrow> nat" where
  "slice_index k n = (if k < 0 then nat (max 0 (k + int n)) else min (nat k) n)"

text \<open>
  \<open>xs[start:stop:step]\<close> for \<open>step > 0\<close>: the entries at \<open>lo, lo + step, \<dots>\<close> below
  \<open>hi\<close>. The source only slices with \<open>step = sino_splits\<close> inside a loop over
  \<open>range(sino_splits)\<close>, where the step is at least 1 (a step of 0 raises in Python and
  is never reached).
\<close>

definition py_slice :: "'a list \<Rightarrow> int \<Rightarrow> int \<Rightarrow> nat \<Rightarrow> 'a list" where
  "py_slice xs start stop step =
     (let n = length xs; lo = slice_index start n; hi = slice_index stop n
      in map (\<lambda>m. xs ! (lo + m * step)) [0..<(hi - lo + step - 1) div step])"

section \<open>\<open>Noise2Inverse_solver.make_sub_operators\<close>\<close>

text \<open>
  The geometry object: only its \<open>angles\<close> field (a numpy array) is read and written
  here; the remaining fields are the record's extension. \<open>ct.make_operator\<close> is an
  external collaborator and is a parameter \<open>make_operator\<close>; it is applied to the
  geometry as it is at the moment of the call.

  \<^verbatim>\<open>
    op = []
    angles = geo.angles.copy()
    for i in range(sino_splits):
        geo.angles = angles[i:-1:sino_splits]
        op.append(ct.make_operator(geo))
    return op
  \<close>
  The mutation of the caller's \<open>geo\<close> is made explicit: the model returns the list of
  operators together with the geometry object as the call leaves it.
\<close>

record geometry =
  angles :: "real list"

definition sub_operator_step ::
  "('g geometry_scheme \<Rightarrow> 'op) \<Rightarrow> real list \<Rightarrow> int \<Rightarrow> nat \<Rightarrow>
     'op list \<times> 'g geometry_scheme \<Rightarrow> 'op list \<times> 'g geometry_scheme" where
  "sub_operator_step make_operator angles0 sino_splits i st =
     (let geo' = (snd st)\<lparr>angles := py_slice angles0 (int i) (- 1) (nat sino_splits)\<rparr>
      in (fst st @ [make_operator geo'], geo'))"

definition make_sub_operators ::
  "('g geometry_scheme \<Rightarrow> 'op) \<Rightarrow> 'g geometry_scheme \<Rightarrow> int \<Rightarrow>
     'op list \<times> 'g geometry_scheme" where
  "make_sub_operators make_operator geo sino_splits =
     fold (sub_operator_step make_operator (angles geo) sino_splits)
       [0..<nat sino_splits] ([], geo)"

text \<open>
  The words of the specification for one split: every \<open>K\<close>-th angle starting at offset
  \<open>i\<close>, below the exclusive upper bound \<open>len(angles) - 1\<close>.
\<close>

definition spec_split_angles :: "real list \<Rightarrow> nat \<Rightarrow> nat \<Rightarrow> real list" where
  "spec_split_angles as i K =
     map (\<lambda>k. as ! k) (filter (\<lambda>k. i \<le> k \<and> K dvd (k - i)) [0..<length as - 1])"

section \<open>\<open>Noise2Inverse_solver.compute_noisy_sub_recon\<close> and \<open>mini_batch_step\<close>\<close>

text \<open>
  An image (one entry of the batch, shape \<open>[1, H, W]\<close>) is an element of a real vector
  space \<open>'img\<close>: the source only adds images and divides by a count (\<open>torch.mean\<close>).
  A sinogram batch is \<open>[batch, 1, angles, detector]\<close>; \<open>data[sino, 0]\<close> is a list of
  detector rows, one per angle. The reconstruction algorithm \<open>recon_fn\<close> (default
  \<open>fdk\<close>) and the sub-operators are parameters.
\<close>

definition compute_noisy_sub_recon ::
  "('op \<Rightarrow> real list list \<Rightarrow> 'img) \<Rightarrow> 'op list \<Rightarrow> int \<Rightarrow>
     real list list list list \<Rightarrow> 'img list list" where
  "compute_noisy_sub_recon recon_fn sub_op sino_splits data =
     map (\<lambda>split. map (\<lambda>sino.
            recon_fn (sub_op ! split)
              (py_slice (data ! sino ! 0) (int split) (- 1) (nat sino_splits)))
          [0..<length data])
       [0..<nat sino_splits]"

text \<open>
  \<open>np.arange(K)\<close>, \<open>np.delete(indices, label)\<close> for an index in range (what
  \<open>np.random.randint(K)\<close> draws), and \<open>torch.mean(\<dots>, axis=0)\<close> of a stack of images.
  For an empty stack, which arises for \<open>K = 1\<close>, torch returns a tensor whose entries
  are all NaN: the result of the mean is either that tensor or a tensor of reals.
\<close>

datatype 'img mean_result = All_NaN | Tensor 'img

definition np_arange :: "int \<Rightarrow> nat list" where
  "np_arange K = [0..<nat K]"

definition np_delete :: "'a list \<Rightarrow> nat \<Rightarrow> 'a list" where
  "np_delete xs i = take i xs @ drop (Suc i) xs"

definition mean_axis0 :: "('img::real_vector) list \<Rightarrow> 'img mean_result" where
  "mean_axis0 xs =
     (if xs = [] then All_NaN else Tensor ((1 / real (length xs)) *\<^sub>R sum_list xs))"

text \<open>
  The label construction of \<open>mini_batch_step\<close> for one sample. \<open>label\<close> is the value
  drawn by \<open>np.random.randint(self.sino_splits)\<close>: the random source is made an input.
  \<^verbatim>\<open>
    indices = np.arange(self.sino_splits)
    label = np.random.randint(self.sino_splits)
    random_target[sino] = bad_recon[label, sino].detach().clone()
    label_array[sino] = torch.mean(
        bad_recon[np.delete(indices, label), sino].detach().clone(), axis=0)
  \<close>
\<close>

definition averaged_splits :: "int \<Rightarrow> nat \<Rightarrow> nat list" where
  "averaged_splits sino_splits label = np_delete (np_arange sino_splits) label"

definition random_target_of :: "'img list list \<Rightarrow> nat \<Rightarrow> nat \<Rightarrow> 'img" where
  "random_target_of bad_recon label sino = bad_recon ! label ! sino"

definition label_array_of ::
  "int \<Rightarrow> ('img::real_vector) list list \<Rightarrow> nat \<Rightarrow> nat \<Rightarrow> 'img mean_result" where
  "label_array_of sino_splits bad_recon label sino =
     mean_axis0 (map (\<lambda>s. bad_recon ! s ! sino) (averaged_splits sino_splits label))"

text \<open>
  The solver: the model under training is a forward function of its weights \<open>'w\<close>; the
  loss, and the combined effect of \<open>zero_grad\<close>, \<open>backward\<close> and \<open>optimizer.step\<close> on
  the weights (\<open>update\<close>), are parameters. \<open>labels ! sino\<close> is the draw for sample
  \<open>sino\<close>. The step returns the loss and the new weights; \<open>label_array\<close> and
  \<open>random_target\<close> are the tensors it feeds to the model and to the loss. The types
  \<open>'out\<close> of the model's output and \<open>'loss\<close> of the loss are left open, since a NaN
  label can make both NaN.
\<close>

record ('op, 'img, 'w, 'out, 'loss) n2i_solver =
  sino_splits :: int
  recon_fn :: "'op \<Rightarrow> real list list \<Rightarrow> 'img"
  sub_op :: "'op list"
  model :: "'w \<Rightarrow> 'img mean_result list \<Rightarrow> 'out"
  loss_fn :: "'out \<Rightarrow> 'img list \<Rightarrow> 'loss"
  update :: "'w \<Rightarrow> 'img mean_result list \<Rightarrow> 'img list \<Rightarrow> 'w"

definition label_array ::
  "('op, 'img::real_vector, 'w, 'out, 'loss) n2i_solver \<Rightarrow> real list list list list \<Rightarrow>
     nat list \<Rightarrow> 'img mean_result list" where
  "label_array s data labels =
     (let bad_recon = compute_noisy_sub_recon (recon_fn s) (sub_op s) (sino_splits s) data
      in map (\<lambda>sino. label_array_of (sino_splits s) bad_recon (labels ! sino) sino)
           [0..<length data])"

definition random_target ::
  "('op, 'img::real_vector, 'w, 'out, 'loss) n2i_solver \<Rightarrow> real list list list list \<Rightarrow>
     nat list \<Rightarrow> 'img list" where
  "random_target s data labels =
     (let bad_recon = compute_noisy_sub_recon (recon_fn s) (sub_op s) (sino_splits s) data
      in map (\<lambda>sino. random_target_of bad_recon (labels ! sino) sino) [0..<length data])"

definition mini_batch_step ::
  "('op, 'img::real_vector, 'w, 'out, 'loss) n2i_solver \<Rightarrow> 'w \<Rightarrow>
     real list list list list \<Rightarrow> nat list \<Rightarrow> 'loss \<times> 'w" where
  "mini_batch_step s w data labels =
     (let la = label_array s data labels;
          rt = random_target s data labels;
          output = model s w la
      in (loss_fn s output rt, update s w la rt))"

section \<open>\<open>ACR.reconstruction\<close>\<close>

text \<open>
  The variational inner solve. A tensor (image \<open>'t\<close>, sinogram \<open>'s\<close>) is an element of a
  real vector space: the loop only adds, subtracts and scales tensors of one shape.
  The collaborators the method reads from \<open>self\<close> are fields of an environment:
  \<open>fbp_op_mod\<close>, \<open>fwd_op_mod\<close> and its \<open>adjoint\<close>, the metric \<open>self.psnr\<close>, the SGD
  step size \<open>var_step\<close> and momentum \<open>var_momentum\<close>, the iteration count \<open>iterates\<close>
  and the flag \<open>earlystop\<close>. \<open>self_grad x\<close> is the gradient of \<open>self(x).sum()\<close> with
  respect to \<open>x\<close>, which \<open>lossm.backward()\<close> adds to the buffer \<open>x_0.grad\<close>. The values
  \<open>loss\<close>, \<open>ssim\<close>, the printing and the counter \<open>self.cntr\<close> have no effect on the
  result and are left out.
\<close>

record ('s, 't) recon_env =
  fbp_op_mod :: "'s \<Rightarrow> 't"
  fwd_op_mod :: "'t \<Rightarrow> 's"
  fwd_adjoint :: "'s \<Rightarrow> 't"
  self_grad :: "'t \<Rightarrow> 't"
  psnr :: "'t \<Rightarrow> 't \<Rightarrow> real"
  var_step :: real
  var_momentum :: real
  iterates :: int
  earlystop :: bool

text \<open>
  The variables of the loop: the estimate \<open>x_0\<close>, its gradient buffer \<open>x_0.grad\<close>
  (\<open>None\<close> until the first \<open>backward\<close>), the optimizer's momentum buffer for \<open>x_0\<close>, and
  \<open>prevpsn\<close>, \<open>curpsn\<close>.
\<close>

record 't recon_state =
  x_0 :: 't
  x_grad :: "'t option"
  momentum_buffer :: "'t option"
  prevpsn :: real
  curpsn :: real

datatype ('r, 'st) loop_step = Return 'r | Continue 'st

definition lambd :: real where
  "lambd = 1"

text \<open>\<open>backward()\<close> accumulates into the buffer: it sets it when it is \<open>None\<close>, else adds.\<close>

definition accumulate_grad :: "('t::real_vector) option \<Rightarrow> 't \<Rightarrow> 't" where
  "accumulate_grad buf g = (case buf of None \<Rightarrow> g | Some b \<Rightarrow> b + g)"

text \<open>
  One step of \<open>torch.optim.SGD\<close> on the single parameter (no weight decay, dampening 0,
  no Nesterov): with a non-zero momentum the buffer is \<open>d_p\<close> at first and
  \<open>momentum * buf + d_p\<close> afterwards, and replaces \<open>d_p\<close>; then
  \<open>p.add_(d_p, alpha=-lr)\<close>.
\<close>

definition sgd_step ::
  "real \<Rightarrow> real \<Rightarrow> ('t::real_vector) \<Rightarrow> 't \<Rightarrow> 't option \<Rightarrow> 't \<times> 't option" where
  "sgd_step lr momentum p d_p buf =
     (if momentum \<noteq> 0
      then (let b = (case buf of None \<Rightarrow> d_p | Some b0 \<Rightarrow> momentum *\<^sub>R b0 + d_p)
            in (p + (- lr) *\<^sub>R b, Some b))
      else (p + (- lr) *\<^sub>R d_p, buf))"

text \<open>
  Lines 227 to 238: with a reference image, \<open>prevpsn=curpsn\<close> and \<open>curpsn=psnr\<close>.
\<close>

definition track_psnr ::
  "('s, 't) recon_env \<Rightarrow> 't option \<Rightarrow> 't recon_state \<Rightarrow> 't recon_state" where
  "track_psnr env x_t st =
     (case x_t of None \<Rightarrow> st
      | Some xt \<Rightarrow> st\<lparr>prevpsn := curpsn st, curpsn := psnr env (x_0 st) xt\<rparr>)"

text \<open>
  Lines 225, 226 and 242 to 245: the data gradient, \<open>backward\<close> of the regulariser,
  \<open>x_0.grad+=grad\<close> and \<open>optimizer.step()\<close>. The buffer is never reset in the loop.
\<close>

definition gradient_step ::
  "('s::real_vector, 't::real_vector) recon_env \<Rightarrow> 's \<Rightarrow> 't recon_state \<Rightarrow> 't recon_state" where
  "gradient_step env y_0 st =
     (let data_misfit = fwd_op_mod env (x_0 st) - y_0;
          grad = fwd_adjoint env data_misfit;
          g = accumulate_grad (x_grad st) (lambd *\<^sub>R self_grad env (x_0 st));
          g' = g + grad;
          r = sgd_step (var_step env) (var_momentum env) (x_0 st) g' (momentum_buffer st)
      in st\<lparr>x_0 := fst r, x_grad := Some g', momentum_buffer := snd r\<rparr>)"

text \<open>One pass through the body of \<open>for j in range(self.args.iterates)\<close>.\<close>

definition iteration ::
  "('s::real_vector, 't::real_vector) recon_env \<Rightarrow> 's \<Rightarrow> 't option \<Rightarrow> 't recon_state \<Rightarrow>
     ('t, 't recon_state) loop_step" where
  "iteration env y_0 x_t st =
     (let st1 = track_psnr env x_t st
      in if x_t \<noteq> None \<and> earlystop env \<and> curpsn st1 < prevpsn st1
         then Return (x_0 st1)
         else Continue (gradient_step env y_0 st1))"

fun iterate_loop ::
  "('s::real_vector, 't::real_vector) recon_env \<Rightarrow> 's \<Rightarrow> 't option \<Rightarrow> nat \<Rightarrow>
     't recon_state \<Rightarrow> 't" where
  "iterate_loop env y_0 x_t 0 st = x_0 st"
| "iterate_loop env y_0 x_t (Suc n) st =
     (case iteration env y_0 x_t st of
        Return x \<Rightarrow> x
      | Continue st' \<Rightarrow> iterate_loop env y_0 x_t n st')"

definition initial_state :: "('s, 't) recon_env \<Rightarrow> 's \<Rightarrow> 't recon_state" where
  "initial_state env y_0 =
     \<lparr>x_0 = fbp_op_mod env y_0, x_grad = None, momentum_buffer = None,
      prevpsn = 0, curpsn = 0\<rparr>"

text \<open>
  \<open>torch.optim.SGD\<close> rejects a negative learning rate or momentum with a
  \<open>ValueError\<close> when it is constructed, before the loop.
\<close>

definition reconstruction ::
  "('s::real_vector, 't::real_vector) recon_env \<Rightarrow> 's \<Rightarrow> 't option \<Rightarrow> error + 't" where
  "reconstruction env y_0 x_t =
     (if var_step env < 0 \<or> var_momentum env < 0 then Inl ValueError
      else Inr (iterate_loop env y_0 x_t (nat (iterates env)) (initial_state env y_0)))"

text \<open>
  For stating properties of the run: the state in which iteration \<open>n\<close> is entered, if
  the loop gets there (\<open>None\<close> once an earlier iteration has returned), and the same
  sequence of states without the early return.
\<close>

fun state_after ::
  "('s::real_vector, 't::real_vector) recon_env \<Rightarrow> 's \<Rightarrow> 't option \<Rightarrow> nat \<Rightarrow>
     't recon_state option" where
  "state_after env y_0 x_t 0 = Some (initial_state env y_0)"
| "state_after env y_0 x_t (Suc n) =
     (case state_after env y_0 x_t n of
        None \<Rightarrow> None
      | Some st \<Rightarrow>
          (case iteration env y_0 x_t st of
             Return x \<Rightarrow> None
           | Continue st' \<Rightarrow> Some st'))"

fun unstopped ::
  "('s::real_vector, 't::real_vector) recon_env \<Rightarrow> 's \<Rightarrow> 't option \<Rightarrow> nat \<Rightarrow>
     't recon_state" where
  "unstopped env y_0 x_t 0 = initial_state env y_0"
| "unstopped env y_0 x_t (Suc n) =
     gradient_step env y_0 (track_psnr env x_t (unstopped env y_0 x_t n))"

text \<open>The gradient computed at iteration \<open>i\<close> alone: regulariser term plus data term.\<close>

definition iteration_gradient ::
  "('s::real_vector, 't::real_vector) recon_env \<Rightarrow> 's \<Rightarrow> 't option \<Rightarrow> nat \<Rightarrow> 't" where
  "iteration_gradient env y_0 x_t i =
     lambd *\<^sub>R self_grad env (x_0 (unstopped env y_0 x_t i)) +
     fwd_adjoint env (fwd_op_mod env (x_0 (unstopped env y_0 x_t i)) - y_0)"

section \<open>Tensors and \<open>torch.nn.Conv2d\<close>\<close>

text \<open>
  One element of a batch is a tensor of shape \<open>[C, H, W]\<close>: a list of channels, each a
  list of rows. A batch is a list of such tensors; every operation of the forward passes
  below acts on each batch element independently. A convolution weight has shape
  \<open>[out, in, kH, kW]\<close>.
\<close>

type_synonym tensor3 = "real list list list"
type_synonym weight4 = "real list list list list"

text \<open>Reading an entry of a zero-padded tensor: 0 outside the tensor.\<close>

definition at3 :: "tensor3 \<Rightarrow> nat \<Rightarrow> int \<Rightarrow> int \<Rightarrow> real" where
  "at3 z c i j =
     (if c < length z \<and> 0 \<le> i \<and> nat i < length (z ! c) \<and>
         0 \<le> j \<and> nat j < length (z ! c ! nat i)
      then z ! c ! nat i ! nat j else 0)"

text \<open>Height and width, read off the first channel and its first row.\<close>

definition spatial :: "tensor3 \<Rightarrow> nat \<times> nat" where
  "spatial x =
     (case x of [] \<Rightarrow> (0, 0)
      | p # _ \<Rightarrow> (length p, case p of [] \<Rightarrow> 0 | r # _ \<Rightarrow> length r))"

definition tensor_map :: "(real \<Rightarrow> real) \<Rightarrow> tensor3 \<Rightarrow> tensor3" where
  "tensor_map f x = map (map (map f)) x"

definition tensor_add :: "tensor3 \<Rightarrow> tensor3 \<Rightarrow> tensor3" where
  "tensor_add a b = map2 (map2 (map2 (+))) a b"

text \<open>\<open>x.view(x.size(0), -1)\<close> for one batch element: all its entries in one row.\<close>

definition flatten :: "tensor3 \<Rightarrow> real list" where
  "flatten x = concat (concat x)"

text \<open>
  \<open>Positive.forward\<close>: \<open>torch.clip(X, min=0.0)\<close>, the entry-wise maximum with 0.
\<close>

definition Positive_forward :: "weight4 \<Rightarrow> weight4" where
  "Positive_forward X = map (map (map (map (\<lambda>v. max v 0)))) X"

text \<open>
  A \<open>Conv2d\<close> module with stride 1. \<open>weight\<close> is the stored (raw) parameter;
  \<open>parametrized\<close> records \<open>P.register_parametrization(module, "weight", Positive())\<close>,
  after which every read of \<open>module.weight\<close> goes through \<open>Positive.forward\<close>.
\<close>

datatype padding = Same | Pad nat

record Conv2d =
  in_channels :: nat
  out_channels :: nat
  kernel_size :: nat
  padding :: padding
  weight :: weight4
  bias :: "real list option"
  parametrized :: bool

definition effective_weight :: "Conv2d \<Rightarrow> weight4" where
  "effective_weight cv = (if parametrized cv then Positive_forward (weight cv) else weight cv)"

text \<open>
  Padding before the first row and column (\<open>padding="same"\<close> puts \<open>(k - 1) // 2\<close>
  there), and the output extent \<open>n + 2 p - (k - 1)\<close>, which is \<open>n\<close> for \<open>"same"\<close>.
\<close>

definition pad_before :: "Conv2d \<Rightarrow> nat" where
  "pad_before cv = (case padding cv of Same \<Rightarrow> (kernel_size cv - 1) div 2 | Pad p \<Rightarrow> p)"

definition out_size :: "Conv2d \<Rightarrow> nat \<Rightarrow> nat" where
  "out_size cv n = (case padding cv of Same \<Rightarrow> n | Pad p \<Rightarrow> n + 2 * p + 1 - kernel_size cv)"

text \<open>
  The taps of one output channel's kernel: input channel, row and column offset, weight.
\<close>

definition taps :: "real list list list \<Rightarrow> (nat \<times> nat \<times> nat \<times> real) list" where
  "taps w_o =
     concat (map (\<lambda>(c, ker).
       concat (map (\<lambda>(u, row). map (\<lambda>(v, w). (c, u, v, w)) (enumerate 0 row))
         (enumerate 0 ker)))
       (enumerate 0 w_o))"

text \<open>
  One output entry of the cross-correlation that \<open>Conv2d\<close> computes:
  \<open>out[co, i, j] = bias[co] + \<Sum> W[co, c, u, v] * x_padded[c, i + u, j + v]\<close>.
\<close>

definition conv2d_at ::
  "real list list list \<Rightarrow> real \<Rightarrow> nat \<Rightarrow> tensor3 \<Rightarrow> nat \<Rightarrow> nat \<Rightarrow> real" where
  "conv2d_at w_o b pad x i j =
     b + (\<Sum>(c, u, v, w)\<leftarrow>taps w_o.
            w * at3 x c (int i + int u - int pad) (int j + int v - int pad))"

definition bias_at :: "Conv2d \<Rightarrow> nat \<Rightarrow> real" where
  "bias_at cv co =
     (case bias cv of None \<Rightarrow> 0 | Some b \<Rightarrow> if co < length b then b ! co else 0)"

definition Conv2d_forward :: "Conv2d \<Rightarrow> tensor3 \<Rightarrow> tensor3" where
  "Conv2d_forward cv x =
     (let W = effective_weight cv; hw = spatial x
      in map (\<lambda>co. map (\<lambda>i. map (\<lambda>j.
              conv2d_at (W ! co) (bias_at cv co) (pad_before cv) x i j)
            [0..<out_size cv (snd hw)])
          [0..<out_size cv (fst hw)])
        [0..<length W])"

text \<open>
  The constructor: \<open>padding="same"\<close> is rejected for a stride other than 1 with a
  \<open>ValueError\<close>. The initial weight and bias (random in torch) are inputs.
\<close>

definition Conv2d_init ::
  "nat \<Rightarrow> nat \<Rightarrow> nat \<Rightarrow> nat \<Rightarrow> padding \<Rightarrow> weight4 \<Rightarrow> real list option \<Rightarrow> error + Conv2d" where
  "Conv2d_init ic oc k stride pad w b =
     (if pad = Same \<and> stride \<noteq> 1 then Inl ValueError
      else Inr \<lparr>in_channels = ic, out_channels = oc, kernel_size = k, padding = pad,
                weight = w, bias = b, parametrized = False\<rparr>)"

definition register_Positive :: "Conv2d \<Rightarrow> Conv2d" where
  "register_Positive cv = cv\<lparr>parametrized := True\<rparr>"

section \<open>\<open>ICNN_layer\<close> and \<open>ACR\<close>\<close>

datatype activation = LeakyReLU real | ReLU

fun act :: "activation \<Rightarrow> real \<Rightarrow> real" where
  "act (LeakyReLU negative_slope) v = max 0 v + negative_slope * min 0 v"
| "act ReLU v = max 0 v"

definition make_activation :: "string \<Rightarrow> error + activation" where
  "make_activation relu_type =
     (if relu_type = ''LeakyReLU'' then Inr (LeakyReLU (2 / 10))
      else if relu_type = ''ReLU'' then Inr ReLU
      else Inl ValueError)"

record ICNN_layer =
  blue :: Conv2d
  orange :: Conv2d
  activation :: activation

text \<open>
  \<open>ICNN_layer.__init__\<close>: the blue convolution without bias and with the \<open>Positive\<close>
  parametrization, the orange convolution with bias, then the activation.
\<close>

definition ICNN_layer_init ::
  "nat \<Rightarrow> nat \<Rightarrow> nat \<Rightarrow> string \<Rightarrow> weight4 \<Rightarrow> weight4 \<Rightarrow> real list \<Rightarrow> error + ICNN_layer" where
  "ICNN_layer_init channels k stride relu_type blue_w orange_w orange_b =
     (case Conv2d_init channels channels k stride Same blue_w None of
        Inl e \<Rightarrow> Inl e
      | Inr b \<Rightarrow>
          (case Conv2d_init 1 channels k stride Same orange_w (Some orange_b) of
             Inl e \<Rightarrow> Inl e
           | Inr orng \<Rightarrow>
               (case make_activation relu_type of
                  Inl e \<Rightarrow> Inl e
                | Inr a \<Rightarrow>
                    Inr \<lparr>blue = register_Positive b, orange = orng, activation = a\<rparr>)))"

definition ICNN_layer_forward :: "ICNN_layer \<Rightarrow> tensor3 \<Rightarrow> tensor3 \<Rightarrow> tensor3" where
  "ICNN_layer_forward l z x0 =
     (let res = tensor_add (Conv2d_forward (blue l) z) (Conv2d_forward (orange l) x0)
      in tensor_map (act (activation l)) res)"

record ACR_parameters =
  channels :: nat
  acr_kernel_size :: nat
  stride :: nat
  relu_type :: string
  layers :: nat

text \<open>
  The raw weights the modules hold after construction (the random initial values, or
  any later value of the parameters): inputs of the model.
\<close>

record ACR_weights =
  first_w :: weight4
  first_b :: "real list"
  blue_w :: "nat \<Rightarrow> weight4"
  orange_w :: "nat \<Rightarrow> weight4"
  orange_b :: "nat \<Rightarrow> real list"
  last_w :: weight4

record ACR =
  first_layer :: Conv2d
  first_activation :: activation
  ICNN_layers :: "ICNN_layer list"
  last_layer :: Conv2d

fun sequence_results :: "(error + 'a) list \<Rightarrow> error + 'a list" where
  "sequence_results [] = Inr []"
| "sequence_results (r # rs) =
     (case r of
        Inl e \<Rightarrow> Inl e
      | Inr v \<Rightarrow> (case sequence_results rs of Inl e \<Rightarrow> Inl e | Inr vs \<Rightarrow> Inr (v # vs)))"

text \<open>
  \<open>ACR.__init__\<close>, in the order of the source: first convolution, activation, the
  \<open>layers\<close> ICNN layers (\<open>ICNN_layer_0\<close>, \<open>ICNN_layer_1\<close>, \<dots>, kept as a list), the last
  convolution with the \<open>Positive\<close> parametrization.
\<close>

definition ACR_init :: "ACR_parameters \<Rightarrow> ACR_weights \<Rightarrow> error + ACR" where
  "ACR_init p w =
     (case Conv2d_init 1 (channels p) (acr_kernel_size p) (stride p) Same (first_w w)
             (Some (first_b w)) of
        Inl e \<Rightarrow> Inl e
      | Inr fl \<Rightarrow>
          (case make_activation (relu_type p) of
             Inl e \<Rightarrow> Inl e
           | Inr a \<Rightarrow>
               (case sequence_results
                       (map (\<lambda>i. ICNN_layer_init (channels p) (acr_kernel_size p) (stride p)
                                   (relu_type p) (blue_w w i) (orange_w w i) (orange_b w i))
                          [0..<layers p]) of
                  Inl e \<Rightarrow> Inl e
                | Inr ls \<Rightarrow>
                    (case Conv2d_init (channels p) 1 (acr_kernel_size p) (stride p) Same
                            (last_w w) None of
                       Inl e \<Rightarrow> Inl e
                     | Inr ll \<Rightarrow>
                         Inr \<lparr>first_layer = fl, first_activation = a, ICNN_layers = ls,
                              last_layer = register_Positive ll\<rparr>))))"

text \<open>\<open>nn.AdaptiveAvgPool2d((1, 1))\<close>: the mean of every channel.\<close>

definition pool :: "tensor3 \<Rightarrow> tensor3" where
  "pool z = map (\<lambda>p. [[sum_list (concat p) / real (length (concat p))]]) z"

text \<open>
  \<open>ACR.forward\<close> on one batch element \<open>x\<close> of shape \<open>[1, H, W]\<close>; the result has shape
  \<open>[1, 1, 1]\<close>. On a batch the forward pass is the map over its elements.
\<close>

definition ACR_forward :: "ACR \<Rightarrow> tensor3 \<Rightarrow> tensor3" where
  "ACR_forward m x =
     (let z = Conv2d_forward (first_layer m) x;
          z = tensor_map (act (first_activation m)) z;
          z = fold (\<lambda>layer z. ICNN_layer_forward layer z x) (ICNN_layers m) z;
          z = Conv2d_forward (last_layer m) z
      in pool z)"

definition ACR_forward_batch :: "ACR \<Rightarrow> tensor3 list \<Rightarrow> tensor3 list" where
  "ACR_forward_batch m xs = map (ACR_forward m) xs"

text \<open>The convex combination \<open>t * x1 + (1 - t) * x2\<close> of two tensors.\<close>

definition mix :: "real \<Rightarrow> tensor3 \<Rightarrow> tensor3 \<Rightarrow> tensor3" where
  "mix t x1 x2 = tensor_add (tensor_map (\<lambda>v. t * v) x1) (tensor_map (\<lambda>v. (1 - t) * v) x2)"

definition has_shape :: "nat \<Rightarrow> nat \<Rightarrow> nat \<Rightarrow> tensor3 \<Rightarrow> bool" where
  "has_shape C H W x =
     (length x = C \<and> (\<forall>p\<in>set x. length p = H \<and> (\<forall>r\<in>set p. length r = W)))"

definition nonneg4 :: "weight4 \<Rightarrow> bool" where
  "nonneg4 X = (\<forall>w_o\<in>set X. \<forall>ker\<in>set w_o. \<forall>row\<in>set ker. \<forall>v\<in>set row. 0 \<le> v)"

section \<open>\<open>L2net\<close> and \<open>SFB\<close>\<close>

text \<open>
  \<open>torch.nn.functional.softplus\<close> with its defaults \<open>beta=1\<close>, \<open>threshold=20\<close>: the
  identity above the threshold.
\<close>

definition softplus :: "real \<Rightarrow> real" where
  "softplus v = (if v > 20 then v else ln (1 + exp v))"

record L2net =
  l2_penalty :: real

definition L2net_init :: L2net where
  "L2net_init = \<lparr>l2_penalty = - 9\<rparr>"

text \<open>
  \<open>L2net.forward\<close>: per batch element the sum of squares, times \<open>softplus(l2_penalty)\<close>,
  as a tensor of shape \<open>[batch, 1]\<close>. \<open>view(0, -1)\<close> of an empty batch raises.
\<close>

definition L2net_forward :: "L2net \<Rightarrow> tensor3 list \<Rightarrow> error + real list list" where
  "L2net_forward l x =
     (if x = [] then Inl RuntimeError
      else (let l2_term = map (\<lambda>s. \<Sum>v\<leftarrow>flatten s. v\<^sup>2) x
            in Inr (map (\<lambda>v. [softplus (l2_penalty l) * v]) l2_term)))"

record SFB_parameters =
  n_kernels :: nat
  n_filters :: nat
  L2net :: bool

definition SFB_default_parameters :: SFB_parameters where
  "SFB_default_parameters = \<lparr>n_kernels = 10, n_filters = 32, L2net = True\<rparr>"

record SFB =
  model_parameters :: SFB_parameters
  penalty :: real
  self_n_kernels :: nat
  conv :: "Conv2d list"
  self_L2net :: "L2net option"

text \<open>
  \<open>SFB.__init__\<close>: \<open>n_kernels\<close> modules \<open>nn.Conv2d(1, n_filters, kernel_size=7, stride=1,
  padding=3, bias=False)\<close>; \<open>init_w i\<close> is the initial weight of the \<open>i\<close>-th one.
\<close>

definition SFB_init :: "SFB_parameters \<Rightarrow> (nat \<Rightarrow> weight4) \<Rightarrow> SFB" where
  "SFB_init p init_w =
     \<lparr>model_parameters = p,
      penalty = - 12,
      self_n_kernels = n_kernels p,
      conv = map (\<lambda>i. \<lparr>in_channels = 1, out_channels = n_filters p, kernel_size = 7,
                        padding = Pad 3, weight = init_w i, bias = None,
                        parametrized = False\<rparr>) [0..<n_kernels p],
      self_L2net = (if L2net p then Some L2net_init else None)\<rparr>"

text \<open>
  \<open>total_out\<close> starts as the Python float \<open>0.0\<close> and becomes a tensor of shape
  \<open>[batch]\<close> with the first \<open>+=\<close>.
\<close>

datatype pyval = PyFloat real | Tensor1 "real list"

fun py_add :: "pyval \<Rightarrow> real list \<Rightarrow> pyval" where
  "py_add (PyFloat a) t = Tensor1 (map (\<lambda>v. a + v) t)"
| "py_add (Tensor1 u) t = Tensor1 (map2 (+) u t)"

definition kernel_response :: "Conv2d \<Rightarrow> tensor3 list \<Rightarrow> real list" where
  "kernel_response cv x =
     map (\<lambda>s. sum_list (flatten (tensor_map abs (Conv2d_forward cv s)))) x"

text \<open>
  \<open>SFB.forward\<close>. With no kernel \<open>total_out\<close> is still a float at \<open>total_out.view\<close>,
  which raises \<open>AttributeError\<close>; \<open>view(0, -1)\<close> of an empty batch raises.
\<close>

definition SFB_forward :: "SFB \<Rightarrow> tensor3 list \<Rightarrow> error + real list list" where
  "SFB_forward s x =
     (let total_out = fold (\<lambda>kernel_idx total. py_add total (kernel_response (conv s ! kernel_idx) x))
                        [0..<self_n_kernels s] (PyFloat 0)
      in case total_out of
           PyFloat a \<Rightarrow> Inl AttributeError
         | Tensor1 t \<Rightarrow>
             if x = [] then Inl RuntimeError
             else (let total = map (\<lambda>v. [v]) t;
                       out = map (map (\<lambda>v. softplus (penalty s) * v)) total
                   in if L2net (model_parameters s)
                      then (case self_L2net s of
                              None \<Rightarrow> Inl AttributeError
                            | Some l \<Rightarrow>
                                (case L2net_forward l x of
                                   Inl e \<Rightarrow> Inl e
                                 | Inr r \<Rightarrow> Inr (map2 (map2 (+)) out r)))
                      else Inr out))"

section \<open>Notions used to state and prove convexity\<close>

text \<open>
  The tensor of shape \<open>[C, H, W]\<close> with entries \<open>f c i j\<close>; every tensor a forward pass
  produces has this form.
\<close>

definition tab3 :: "nat \<Rightarrow> nat \<Rightarrow> nat \<Rightarrow> (nat \<Rightarrow> nat \<Rightarrow> nat \<Rightarrow> real) \<Rightarrow> tensor3" where
  "tab3 C H W f = map (\<lambda>c. map (\<lambda>i. map (\<lambda>j. f c i j) [0..<W]) [0..<H]) [0..<C]"

text \<open>
  Three tensors of one shape, the first entry-wise below (respectively equal to) the
  convex combination of the other two with weight \<open>t\<close>.
\<close>

definition cvx3 :: "real \<Rightarrow> tensor3 \<Rightarrow> tensor3 \<Rightarrow> tensor3 \<Rightarrow> bool" where
  "cvx3 t zm z1 z2 =
     (\<exists>C H W fm f1 f2. zm = tab3 C H W fm \<and> z1 = tab3 C H W f1 \<and> z2 = tab3 C H W f2 \<and>
        (\<forall>c i j. c < C \<and> i < H \<and> j < W \<longrightarrow> fm c i j \<le> t * f1 c i j + (1 - t) * f2 c i j))"

definition aff3 :: "real \<Rightarrow> tensor3 \<Rightarrow> tensor3 \<Rightarrow> tensor3 \<Rightarrow> bool" where
  "aff3 t zm z1 z2 =
     (\<exists>C H W fm f1 f2. zm = tab3 C H W fm \<and> z1 = tab3 C H W f1 \<and> z2 = tab3 C H W f2 \<and>
        (\<forall>c i j. c < C \<and> i < H \<and> j < W \<longrightarrow> fm c i j = t * f1 c i j + (1 - t) * f2 c i j))"

text \<open>
  The activations the convexity argument needs: convex and non-decreasing. A leaky ReLU
  is so for a slope in \<open>[0, 1]\<close>.
\<close>

definition valid_activation :: "activation \<Rightarrow> bool" where
  "valid_activation a = (case a of LeakyReLU s \<Rightarrow> 0 \<le> s \<and> s \<le> 1 | ReLU \<Rightarrow> True)"

definition layer_ok :: "ICNN_layer \<Rightarrow> bool" where
  "layer_ok l = (parametrized (blue l) \<and> valid_activation (activation l))"

section \<open>Notions used to state the value of \<open>SFB.forward\<close>\<close>

text \<open>
  An SFB as the constructor builds it, with any values of its learnable parameters: the
  kernels \<open>ws\<close>, the scalar \<open>penalty\<close> and the scalar \<open>l2_penalty\<close> of its \<open>L2net\<close>.
\<close>

definition SFB_trained :: "SFB_parameters \<Rightarrow> (nat \<Rightarrow> weight4) \<Rightarrow> real \<Rightarrow> real \<Rightarrow> SFB" where
  "SFB_trained p ws pen l2 =
     (SFB_init p ws)\<lparr>penalty := pen,
        self_L2net := (if L2net p then Some \<lparr>l2_penalty = l2\<rparr> else None)\<rparr>"

text \<open>
  The words of the specification for one batch element: \<open>softplus(penalty)\<close> times the
  sum over all kernels of the sum of absolute values of the kernel's convolution
  response, plus the L2 penalty when that option is enabled.
\<close>

definition spec_SFB_value :: "SFB \<Rightarrow> real \<Rightarrow> tensor3 \<Rightarrow> real" where
  "spec_SFB_value s l2 x =
     softplus (penalty s) *
       (\<Sum>k\<leftarrow>[0..<length (conv s)]. \<Sum>v\<leftarrow>flatten (Conv2d_forward (conv s ! k) x). \<bar>v\<bar>) +
     (if L2net (model_parameters s) then softplus l2 * (\<Sum>v\<leftarrow>flatten x. v\<^sup>2) else 0)"

section \<open>Concrete inputs used by the witnesses and counterexamples\<close>

text \<open>A geometry with 360 angles (in degrees), and a small one with four angles.\<close>

definition geo360 :: geometry where
  "geo360 = \<lparr>angles = map real [0..<360]\<rparr>"

definition geo4 :: geometry where
  "geo4 = \<lparr>angles = [0, 1, 2, 3]\<rparr>"

text \<open>
  A solver with three splits whose reconstruction adds the operator (a number) to the sum
  of the sinogram rows it is given, an identity model and a squared-error loss, which is
  NaN as soon as one output is; one sinogram with four angles. The same solver with a
  single split.
\<close>

definition squared_error :: "real mean_result list \<Rightarrow> real list \<Rightarrow> real mean_result" where
  "squared_error out tgt =
     (if All_NaN \<in> set out then All_NaN
      else Tensor (sum_list (map2 (\<lambda>a b. case a of All_NaN \<Rightarrow> 0 | Tensor v \<Rightarrow> (v - b)\<^sup>2)
                    out tgt)))"

definition demo_solver ::
  "(nat, real, unit, real mean_result list, real mean_result) n2i_solver" where
  "demo_solver = \<lparr>sino_splits = 3,
      recon_fn = (\<lambda>op rows. real op + sum_list (map sum_list rows)),
      sub_op = [10, 20, 30],
      model = (\<lambda>w xs. xs),
      loss_fn = squared_error,
      update = (\<lambda>w la rt. w)\<rparr>"

definition demo_solver_1 ::
  "(nat, real, unit, real mean_result list, real mean_result) n2i_solver" where
  "demo_solver_1 = demo_solver\<lparr>sino_splits := 1\<rparr>"

definition demo_data :: "real list list list list" where
  "demo_data = [[[[1], [2], [4], [8]]]]"

text \<open>
  A one-pixel reconstruction problem: identity operators, a regulariser with constant
  gradient \<open>-1\<close>, PSNR for data range 1, step size \<open>1/2\<close>, no momentum.
\<close>

definition demo_env :: "(real, real) recon_env" where
  "demo_env = \<lparr>fbp_op_mod = (\<lambda>y. y), fwd_op_mod = (\<lambda>x. x), fwd_adjoint = (\<lambda>s. s),
      self_grad = (\<lambda>x. - 1), psnr = (\<lambda>x xt. 10 * log 10 (1 / (x - xt)\<^sup>2)),
      var_step = 1 / 2, var_momentum = 0, iterates = 3, earlystop = True\<rparr>"

text \<open>
  A small ACR: two channels, \<open>3 \<times> 3\<close> kernels, one ICNN layer, with a negative raw blue
  weight; and two \<open>2 \<times> 2\<close> images.
\<close>

definition demo_acr_parameters :: ACR_parameters where
  "demo_acr_parameters = \<lparr>channels = 2, acr_kernel_size = 3, stride = 1,
      relu_type = ''LeakyReLU'', layers = 1\<rparr>"

definition demo_acr_weights :: ACR_weights where
  "demo_acr_weights = \<lparr>
      first_w = [[[[0, 0, 0], [0, 1, 0], [0, 0, 0]]], [[[0, 0, 0], [0, - 1, 0], [0, 0, 0]]]],
      first_b = [0, 0],
      blue_w = (\<lambda>i. [[[[0, 0, 0], [0, 1, 0], [0, 0, 0]], [[0, 0, 0], [0, 1, 0], [0, 0, 0]]],
                     [[[0, 0, 0], [0, - 5, 0], [0, 0, 0]], [[0, 0, 0], [0, 0, 1], [0, 0, 0]]]]),
      orange_w = (\<lambda>i. [[[[0, 0, 0], [0, 0, 0], [0, 0, 0]]], [[[0, 0, 0], [0, 1, 0], [0, 0, 0]]]]),
      orange_b = (\<lambda>i. [0, 1]),
      last_w = [[[[0, 0, 0], [0, 1, 0], [0, 0, 0]], [[0, 0, 0], [0, 2, 0], [0, 0, 0]]]]\<rparr>"

definition demo_acr :: ACR where
  "demo_acr = \<lparr>first_layer = \<lparr>in_channels = 1, out_channels = 2, kernel_size = 3, padding = Same,
           weight = first_w demo_acr_weights, bias = Some [0, 0], parametrized = False\<rparr>,
        first_activation = LeakyReLU (2 / 10),
        ICNN_layers =
          [\<lparr>blue = \<lparr>in_channels = 2, out_channels = 2, kernel_size = 3, padding = Same,
                 weight = blue_w demo_acr_weights 0, bias = None, parametrized = True\<rparr>,
            orange = \<lparr>in_channels = 1, out_channels = 2, kernel_size = 3, padding = Same,
                   weight = orange_w demo_acr_weights 0, bias = Some [0, 1], parametrized = False\<rparr>,
            activation = LeakyReLU (2 / 10)\<rparr>],
        last_layer = \<lparr>in_channels = 2, out_channels = 1, kernel_size = 3, padding = Same,
             weight = last_w demo_acr_weights, bias = None, parametrized = True\<rparr>\<rparr>"

definition demo_x1 :: tensor3 where
  "demo_x1 = [[[1, - 2], [3, 0]]]"

definition demo_x2 :: tensor3 where
  "demo_x2 = [[[- 3, 2], [- 1, 4]]]"

text \<open>
  A small SFB: two convolution modules with two filters each (\<open>7 \<times> 7\<close> kernels that are
  zero but for their middle row), the L2 term enabled.
\<close>

definition demo_sfb_parameters :: SFB_parameters where
  "demo_sfb_parameters = \<lparr>n_kernels = 2, n_filters = 2, L2net = True\<rparr>"

definition demo_sfb_w :: "nat \<Rightarrow> weight4" where
  "demo_sfb_w i =
     [[replicate 3 (replicate 7 0) @ [[0, 0, 0, 1 + real i, 0, 0, 0]] @ replicate 3 (replicate 7 0)],
      [replicate 3 (replicate 7 0) @ [[0, 0, 0, - 1, 1, 0, 0]] @ replicate 3 (replicate 7 0)]]"

definition demo_sfb :: SFB where
  "demo_sfb = SFB_trained demo_sfb_parameters demo_sfb_w (- 12) (- 9)"

section \<open>Verification: slicing and the sub-operators\<close>

lemma stride_count:
  assumes "0 < K"
  shows "(m < (hi - lo + K - 1) div K) = (lo + m * K < (hi::nat))"
proof -
  have "(m < (hi - lo + K - 1) div K) = (Suc m \<le> (hi - lo + K - 1) div K)"
    by auto
  also have "\<dots> = (Suc m * K \<le> hi - lo + K - 1)"
    using assms by (simp add: less_eq_div_iff_mult_less_eq)
  also have "\<dots> = (lo + m * K < hi)"
    using assms by auto
  finally show ?thesis .
qed

lemma stride_filter:
  assumes "0 < K"
  shows "map (\<lambda>m. lo + m * K) [0..<(hi - lo + K - 1) div K] =
         filter (\<lambda>k. lo \<le> k \<and> K dvd (k - lo)) [0..<hi]"
proof (rule sorted_distinct_set_unique)
  show "sorted (map (\<lambda>m. lo + m * K) [0..<(hi - lo + K - 1) div K])"
    by (simp add: sorted_iff_nth_mono)
  show "distinct (map (\<lambda>m. lo + m * K) [0..<(hi - lo + K - 1) div K])"
    using assms by (simp add: distinct_map inj_on_def)
  show "sorted (filter (\<lambda>k. lo \<le> k \<and> K dvd (k - lo)) [0..<hi])"
    by (simp add: sorted_wrt_filter) 
  show "distinct (filter (\<lambda>k. lo \<le> k \<and> K dvd (k - lo)) [0..<hi])"
    by simp
  show "set (map (\<lambda>m. lo + m * K) [0..<(hi - lo + K - 1) div K]) =
        set (filter (\<lambda>k. lo \<le> k \<and> K dvd (k - lo)) [0..<hi])"
  proof (rule set_eqI)
    fix k
    show "(k \<in> set (map (\<lambda>m. lo + m * K) [0..<(hi - lo + K - 1) div K])) =
          (k \<in> set (filter (\<lambda>k. lo \<le> k \<and> K dvd (k - lo)) [0..<hi]))"
    proof
      assume "k \<in> set (map (\<lambda>m. lo + m * K) [0..<(hi - lo + K - 1) div K])"
      then have "\<exists>m. k = lo + m * K \<and> m < (hi - lo + K - 1) div K"
        by auto
      then obtain m where m: "k = lo + m * K" "m < (hi - lo + K - 1) div K"
        by blast
      then have "lo + m * K < hi"
        using assms stride_count by blast
      with m show "k \<in> set (filter (\<lambda>k. lo \<le> k \<and> K dvd (k - lo)) [0..<hi])"
        by simp
    next
      assume "k \<in> set (filter (\<lambda>k. lo \<le> k \<and> K dvd (k - lo)) [0..<hi])"
      then have k: "k < hi" "lo \<le> k" "K dvd (k - lo)"
        by auto
      then obtain m where "k - lo = m * K"
        by (auto simp: dvd_def mult.commute)
      with k have km: "k = lo + m * K"
        by simp
      with k have "m < (hi - lo + K - 1) div K"
        using assms stride_count by blast
      with km show "k \<in> set (map (\<lambda>m. lo + m * K) [0..<(hi - lo + K - 1) div K])"
        by auto
    qed
  qed
qed

lemma slice_index_nat [simp]: "slice_index (int i) n = min i n"
  by (simp add: slice_index_def)

lemma slice_index_m1 [simp]: "slice_index (- 1) n = n - 1"
  by (simp add: slice_index_def)

lemma py_slice_m1:
  "py_slice xs (int i) (- 1) K =
     map (\<lambda>m. xs ! (i + m * K)) [0..<(length xs - 1 - i + K - 1) div K]"
proof (cases "i \<le> length xs")
  case True
  then show ?thesis by (simp add: py_slice_def Let_def min_def)
next
  case False
  then have "(length xs - 1 - min i (length xs) + K - 1) div K = 0" "(length xs - 1 - i + K - 1) div K = 0"
    by (auto simp: min_def div_eq_0_iff)
  then show ?thesis by (simp add: py_slice_def Let_def)
qed

lemma py_slice_spec:
  assumes "0 < K"
  shows "py_slice xs (int i) (- 1) K = spec_split_angles xs i K"
proof -
  have "py_slice xs (int i) (- 1) K =
        map (\<lambda>k. xs ! k) (map (\<lambda>m. i + m * K) [0..<(length xs - 1 - i + K - 1) div K])"
    by (simp add: py_slice_m1 o_def)
  also have "\<dots> = spec_split_angles xs i K"
    unfolding spec_split_angles_def stride_filter [OF assms] ..
  finally show ?thesis .
qed


lemma length_py_slice_m1:
  "length (py_slice xs (int i) (- 1) K) = (length xs - 1 - i + K - 1) div K"
  by (simp add: py_slice_m1)

lemma length_py_slice_m1_less:
  assumes "0 < K" "xs \<noteq> []"
  shows "length (py_slice xs (int i) (- 1) K) < length xs"
proof -
  have "(length xs - 1 - i + K - 1) div K \<le> length xs - 1 - i"
  proof (cases "length xs - 1 - i = 0")
    case True
    with assms show ?thesis by (simp add: div_eq_0_iff)
  next
    case False
    then obtain a k where "length xs - 1 - i = Suc a" "K = Suc k"
      using assms(1) by (metis not0_implies_Suc less_numeral_extra(3))
    then have "length xs - 1 - i + K - 1 \<le> (length xs - 1 - i) * K"
      by simp
    then have "(length xs - 1 - i + K - 1) div K \<le> ((length xs - 1 - i) * K) div K"
      by (rule div_le_mono)
    then show ?thesis
      using assms(1) by simp
  qed
  moreover have "length xs - 1 - i < length xs"
    using assms(2) by (cases xs) auto
  ultimately show ?thesis
    by (simp add: length_py_slice_m1)
qed

lemma np_delete_upt:
  assumes "l < n"
  shows "np_delete [0..<n] l = filter (\<lambda>k. k \<noteq> l) [0..<n]"
proof -
  have "[0..<l + (n - l)] = [0..<l] @ [l..<l + (n - l)]"
    by (rule upt_add_eq_append) simp
  then have split: "[0..<n] = [0..<l] @ [l] @ [Suc l..<n]"
    using assms by (simp add: upt_conv_Cons)
  have "filter (\<lambda>k. k \<noteq> l) [0..<n] = [0..<l] @ [Suc l..<n]"
    by (subst split) (auto simp: filter_id_conv)
  moreover have "np_delete [0..<n] l = [0..<l] @ [Suc l..<n]"
    using assms by (simp add: np_delete_def min_def)
  ultimately show ?thesis by simp
qed

lemma py_slice_from:
  assumes "0 \<le> s"
  shows "py_slice xs s (- 1) K =
     map (\<lambda>m. xs ! (nat s + m * K)) [0..<(length xs - 1 - nat s + K - 1) div K]"
  using py_slice_m1 [of xs "nat s" K] assms by simp

lemma fold_sub_operator_step:
  "fold (sub_operator_step mk a K) [0..<n] ([], geo) =
     (map (\<lambda>i. mk (geo\<lparr>angles := py_slice a (int i) (- 1) (nat K)\<rparr>)) [0..<n],
      if n = 0 then geo else geo\<lparr>angles := py_slice a (int (n - 1)) (- 1) (nat K)\<rparr>)"
  by (induction n) (simp_all add: sub_operator_step_def Let_def)

lemma make_sub_operators_eq:
  "make_sub_operators mk geo K =
     (map (\<lambda>i. mk (geo\<lparr>angles := py_slice (angles geo) (int i) (- 1) (nat K)\<rparr>)) [0..<nat K],
      if nat K = 0 then geo
      else geo\<lparr>angles := py_slice (angles geo) (int (nat K - 1)) (- 1) (nat K)\<rparr>)"
  unfolding make_sub_operators_def by (rule fold_sub_operator_step)

lemma split_lengths_360:
  assumes "length as = 360"
  shows "map (\<lambda>i. length (py_slice as (int i) (- 1) 4)) [0..<4] = [90, 90, 90, 89]"
proof -
  have "[0..<4] = [0, 1, 2, Suc 2]"
    by (simp add: upt_rec numeral_eq_Suc)
  then show ?thesis
    using assms by (simp add: length_py_slice_m1)
qed

text \<open>
  C4 (as amended). \<open>make_sub_operators(geo, K)\<close> returns exactly \<open>K\<close> operators (none
  for \<open>K \<le> 0\<close>), and the \<open>i\<close>-th one is built from the geometry whose angles are every
  \<open>K\<close>-th angle starting at offset \<open>i\<close>, below the exclusive upper bound
  \<open>len(angles) - 1\<close>. For 360 angles and \<open>K = 4\<close> the four operators are built from 90,
  90, 90 and 89 angles: the last angle, index 359, belongs to no split.
\<close>

theorem make_sub_operators_splits:
  "length (fst (make_sub_operators mk geo K)) = nat K \<and>
   (\<forall>i<nat K. fst (make_sub_operators mk geo K) ! i =
       mk (geo\<lparr>angles := spec_split_angles (angles geo) i (nat K)\<rparr>)) \<and>
   (length (angles geo) = 360 \<longrightarrow>
      map (\<lambda>g. length (angles g)) (fst (make_sub_operators (\<lambda>g. g) geo 4)) =
        [90, 90, 90, 89])"
proof (intro conjI allI impI)
  show "length (fst (make_sub_operators mk geo K)) = nat K"
    by (simp add: make_sub_operators_eq)
next
  fix i assume "i < nat K"
  then show "fst (make_sub_operators mk geo K) ! i =
       mk (geo\<lparr>angles := spec_split_angles (angles geo) i (nat K)\<rparr>)"
    by (simp add: make_sub_operators_eq py_slice_spec)
next
  assume "length (angles geo) = 360"
  then have "map (\<lambda>i. length (py_slice (angles geo) (int i) (- 1) 4)) [0..<4] =
      [90, 90, 90, 89]"
    by (rule split_lengths_360)
  then show "map (\<lambda>g. length (angles g)) (fst (make_sub_operators (\<lambda>g. g) geo 4)) =
      [90, 90, 90, 89]"
    by (simp add: make_sub_operators_eq o_def)
qed

text \<open>
  Witness for C4: the geometry with 360 angles and \<open>K = 4\<close>, with the identity as
  \<open>make_operator\<close> so that each operator shows the geometry it was built from.
\<close>

theorem make_sub_operators_splits_witness:
  "length (fst (make_sub_operators (\<lambda>g. g) geo360 4)) = 4 \<and>
   fst (make_sub_operators (\<lambda>g. g) geo360 4) ! 3 =
     geo360\<lparr>angles := spec_split_angles (angles geo360) 3 4\<rparr> \<and>
   map (\<lambda>g. length (angles g)) (fst (make_sub_operators (\<lambda>g. g) geo360 4)) =
     [90, 90, 90, 89]"
  using make_sub_operators_splits [of "\<lambda>g. g" geo360 4]
  by (simp add: geo360_def)

text \<open>
  Counterexample to C4 as stated ("4 operators each covering 90 angles"): on 360 angles
  with \<open>K = 4\<close> the fourth operator is built from 89 angles, since the slice
  \<open>angles[3:-1:4]\<close> stops before index 359.
\<close>

theorem make_sub_operators_360_counterexample:
  "map (\<lambda>g. length (angles g)) (fst (make_sub_operators (\<lambda>g. g) geo360 4)) = [90, 90, 90, 89]"
proof -
  have "[0..<4] = [0, 1, 2, Suc 2]"
    by (simp add: upt_rec numeral_eq_Suc)
  then show ?thesis
    by (simp add: make_sub_operators_eq py_slice_from geo360_def)
qed

text \<open>
  C9. \<open>make_sub_operators\<close> overwrites the \<open>angles\<close> field of the geometry object it is
  given and does not restore it: for \<open>K \<ge> 1\<close> the object is left with the last split's
  angles \<open>angles[K-1:-1:K]\<close>, which for a non-empty angle array is never the original
  array.
\<close>

theorem make_sub_operators_mutates_geometry:
  assumes "0 < K" "angles geo \<noteq> []"
  shows "angles (snd (make_sub_operators mk geo K)) =
           py_slice (angles geo) (K - 1) (- 1) (nat K) \<and>
         angles (snd (make_sub_operators mk geo K)) \<noteq> angles geo"
proof -
  have eq: "angles (snd (make_sub_operators mk geo K)) =
           py_slice (angles geo) (int (nat K - 1)) (- 1) (nat K)"
    using assms(1) by (simp add: make_sub_operators_eq)
  moreover have "int (nat K - 1) = K - 1"
    using assms(1) by simp
  moreover have "length (py_slice (angles geo) (int (nat K - 1)) (- 1) (nat K)) < length (angles geo)"
    using assms by (intro length_py_slice_m1_less) simp_all
  ultimately show ?thesis
    by (metis less_irrefl)
qed

text \<open>Witness for C9: four angles and two splits leave the geometry with the single angle 1.\<close>

theorem make_sub_operators_mutates_geometry_witness:
  "angles (snd (make_sub_operators (\<lambda>g. g) geo4 2)) = [1] \<and>
   angles (snd (make_sub_operators (\<lambda>g. g) geo4 2)) \<noteq> angles geo4"
  using make_sub_operators_mutates_geometry [of 2 geo4 "\<lambda>g. g"]
  by (simp add: geo4_def py_slice_from)

section \<open>Verification: the label construction of \<open>mini_batch_step\<close>\<close>

lemma compute_noisy_sub_recon_nth:
  assumes "split < nat K" "sino < length data"
  shows "compute_noisy_sub_recon rf ops K data ! split ! sino =
           rf (ops ! split) (py_slice (data ! sino ! 0) (int split) (- 1) (nat K))"
  using assms by (simp add: compute_noisy_sub_recon_def)

lemma averaged_splits_eq:
  assumes "label < nat K"
  shows "averaged_splits K label = filter (\<lambda>k. k \<noteq> label) [0..<nat K]"
  using assms by (simp add: averaged_splits_def np_arange_def np_delete_upt)

lemma length_averaged_splits:
  assumes "label < nat K"
  shows "length (averaged_splits K label) = nat K - 1"
  using assms by (simp add: averaged_splits_def np_arange_def np_delete_def min_def)

text \<open>
  C3. In \<open>mini_batch_step\<close>, for every sample \<open>sino\<close> of the batch and every draw
  \<open>label\<close> in \<open>[0, K)\<close>, the drawn split is not among the splits averaged into
  \<open>label_array[sino]\<close>: these are exactly the other \<open>K - 1\<close> splits, \<open>label_array[sino]\<close>
  is the mean of their reconstructions (the NaN tensor when there is no other split,
  \<open>K = 1\<close>), \<open>random_target[sino]\<close> is the drawn split's reconstruction, and the loss
  compares the model's output on \<open>label_array\<close> with \<open>random_target\<close>.
\<close>

theorem mini_batch_step_self_exclusion:
  assumes "sino < length data" "labels ! sino < nat (sino_splits s)"
  shows "labels ! sino \<notin> set (averaged_splits (sino_splits s) (labels ! sino)) \<and>
         set (averaged_splits (sino_splits s) (labels ! sino)) =
           {0..<nat (sino_splits s)} - {labels ! sino} \<and>
         length (averaged_splits (sino_splits s) (labels ! sino)) = nat (sino_splits s) - 1 \<and>
         label_array s data labels ! sino =
           (if 1 < sino_splits s
            then Tensor ((1 / real (nat (sino_splits s) - 1)) *\<^sub>R
                   (\<Sum>k\<leftarrow>filter (\<lambda>k. k \<noteq> labels ! sino) [0..<nat (sino_splits s)].
                      compute_noisy_sub_recon (recon_fn s) (sub_op s) (sino_splits s) data
                        ! k ! sino))
            else All_NaN) \<and>
         random_target s data labels ! sino =
           compute_noisy_sub_recon (recon_fn s) (sub_op s) (sino_splits s) data
             ! (labels ! sino) ! sino \<and>
         fst (mini_batch_step s w data labels) =
           loss_fn s (model s w (label_array s data labels)) (random_target s data labels)"
proof -
  let ?l = "labels ! sino"
  let ?B = "compute_noisy_sub_recon (recon_fn s) (sub_op s) (sino_splits s) data"
  have av: "averaged_splits (sino_splits s) ?l = filter (\<lambda>k. k \<noteq> ?l) [0..<nat (sino_splits s)]"
    using assms(2) by (rule averaged_splits_eq)
  have len: "length (averaged_splits (sino_splits s) ?l) = nat (sino_splits s) - 1"
    using assms(2) by (rule length_averaged_splits)
  have excl: "?l \<notin> set (averaged_splits (sino_splits s) ?l)"
    by (simp add: av)
  have others: "set (averaged_splits (sino_splits s) ?l) = {0..<nat (sino_splits s)} - {?l}"
    by (auto simp: av)
  have la0: "label_array s data labels ! sino =
      mean_axis0 (map (\<lambda>k. ?B ! k ! sino) (averaged_splits (sino_splits s) ?l))"
    using assms(1) by (simp add: label_array_def label_array_of_def)
  have la: "label_array s data labels ! sino =
      (if 1 < sino_splits s
       then Tensor ((1 / real (nat (sino_splits s) - 1)) *\<^sub>R
              (\<Sum>k\<leftarrow>filter (\<lambda>k. k \<noteq> ?l) [0..<nat (sino_splits s)]. ?B ! k ! sino))
       else All_NaN)"
  proof (cases "1 < sino_splits s")
    case True
    then have "0 < length (averaged_splits (sino_splits s) ?l)"
      by (simp add: len)
    then have ne: "averaged_splits (sino_splits s) ?l \<noteq> []"
      by simp
    have "mean_axis0 (map (\<lambda>k. ?B ! k ! sino) (averaged_splits (sino_splits s) ?l)) =
        Tensor ((1 / real (length (averaged_splits (sino_splits s) ?l))) *\<^sub>R
          (\<Sum>k\<leftarrow>averaged_splits (sino_splits s) ?l. ?B ! k ! sino))"
      using ne by (simp add: mean_axis0_def)
    also have "\<dots> = Tensor ((1 / real (nat (sino_splits s) - 1)) *\<^sub>R
          (\<Sum>k\<leftarrow>filter (\<lambda>k. k \<noteq> ?l) [0..<nat (sino_splits s)]. ?B ! k ! sino))"
      by (simp only: len) (simp only: av)
    finally show ?thesis
      using True la0 by simp
  next
    case False
    then have "length (averaged_splits (sino_splits s) ?l) = 0"
      by (simp add: len)
    then have "averaged_splits (sino_splits s) ?l = []"
      by simp
    then show ?thesis
      using False la0 by (simp add: mean_axis0_def)
  qed
  have rt: "random_target s data labels ! sino = ?B ! ?l ! sino"
    using assms(1) by (simp add: random_target_def random_target_of_def)
  have loss: "fst (mini_batch_step s w data labels) =
           loss_fn s (model s w (label_array s data labels)) (random_target s data labels)"
    by (simp add: mini_batch_step_def Let_def)
  from excl others len la rt loss show ?thesis
    by blast
qed

lemma demo_bad_recon:
  "compute_noisy_sub_recon (recon_fn demo_solver) (sub_op demo_solver) 3 demo_data =
     [[11], [22], [34]]"
proof -
  have "[0..<3] = [0, 1, 2]"
    by (simp add: upt_rec numeral_eq_Suc)
  then show ?thesis
    by (simp add: compute_noisy_sub_recon_def demo_solver_def demo_data_def py_slice_from)
qed

text \<open>
  Witness for C3: three splits, one sample, draw 1. The sub-reconstructions are 11, 22
  and 34; the target is 22 and the label is the mean of 11 and 34. With a single split
  the only draw is 0, no split is left to average, and the label is the NaN tensor.
\<close>

theorem mini_batch_step_self_exclusion_witness:
  "1 \<notin> set (averaged_splits 3 1) \<and>
   length (averaged_splits 3 1) = 2 \<and>
   label_array demo_solver demo_data [1] ! 0 = Tensor (45 / 2) \<and>
   random_target demo_solver demo_data [1] ! 0 = 22 \<and>
   label_array demo_solver_1 demo_data [0] ! 0 = All_NaN"
proof -
  have u: "[0..<3] = [0, 1, 2]"
    by (simp add: upt_rec numeral_eq_Suc)
  have s3: "sino_splits demo_solver = 3"
    by (simp add: demo_solver_def)
  have s1: "sino_splits demo_solver_1 = 1"
    by (simp add: demo_solver_1_def)
  have "0 < length demo_data" "[1] ! 0 < nat (sino_splits demo_solver)"
    by (simp_all add: demo_data_def s3)
  from mini_batch_step_self_exclusion [OF this, of "()"]
  have three: "1 \<notin> set (averaged_splits 3 1) \<and>
      length (averaged_splits 3 1) = 2 \<and>
      label_array demo_solver demo_data [1] ! 0 = Tensor (45 / 2) \<and>
      random_target demo_solver demo_data [1] ! 0 = 22"
    by (simp add: demo_bad_recon s3 u)
  have "0 < length demo_data" "[0] ! 0 < nat (sino_splits demo_solver_1)"
    by (simp_all add: demo_data_def s1)
  from mini_batch_step_self_exclusion [OF this, of "()"]
  have "label_array demo_solver_1 demo_data [0] ! 0 = All_NaN"
    by (simp add: s1)
  with three show ?thesis
    by simp
qed

section \<open>Verification: \<open>ACR.reconstruction\<close>\<close>

lemma track_psnr_fields [simp]:
  "x_0 (track_psnr env x_t st) = x_0 st"
  "x_grad (track_psnr env x_t st) = x_grad st"
  "momentum_buffer (track_psnr env x_t st) = momentum_buffer st"
  by (simp_all add: track_psnr_def split: option.splits)

lemma track_psnr_Some [simp]:
  "curpsn (track_psnr env (Some xt) st) = psnr env (x_0 st) xt"
  "prevpsn (track_psnr env (Some xt) st) = curpsn st"
  by (simp_all add: track_psnr_def)

lemma gradient_step_psn [simp]:
  "curpsn (gradient_step env y_0 st) = curpsn st"
  "prevpsn (gradient_step env y_0 st) = prevpsn st"
  by (simp_all add: gradient_step_def Let_def)

lemma gradient_step_grad:
  "x_grad (gradient_step env y_0 st) =
     Some (accumulate_grad (x_grad st) (lambd *\<^sub>R self_grad env (x_0 st)) +
           fwd_adjoint env (fwd_op_mod env (x_0 st) - y_0))"
  by (simp add: gradient_step_def Let_def)

lemma gradient_step_x:
  "x_0 (gradient_step env y_0 st) =
     fst (sgd_step (var_step env) (var_momentum env) (x_0 st)
       (accumulate_grad (x_grad st) (lambd *\<^sub>R self_grad env (x_0 st)) +
           fwd_adjoint env (fwd_op_mod env (x_0 st) - y_0)) (momentum_buffer st))"
  by (simp add: gradient_step_def Let_def)

lemma unstopped_grad:
  "x_grad (unstopped env y_0 x_t (Suc j)) = Some (\<Sum>i\<le>j. iteration_gradient env y_0 x_t i)"
proof (induction j)
  case 0
  show ?case
    by (simp add: gradient_step_grad iteration_gradient_def initial_state_def accumulate_grad_def)
next
  case (Suc j)
  have "x_grad (unstopped env y_0 x_t (Suc (Suc j))) =
     Some (accumulate_grad (x_grad (unstopped env y_0 x_t (Suc j)))
             (lambd *\<^sub>R self_grad env (x_0 (unstopped env y_0 x_t (Suc j)))) +
           fwd_adjoint env (fwd_op_mod env (x_0 (unstopped env y_0 x_t (Suc j))) - y_0))"
    by (simp only: unstopped.simps gradient_step_grad track_psnr_fields)
  also have "\<dots> = Some ((\<Sum>i\<le>j. iteration_gradient env y_0 x_t i) +
        iteration_gradient env y_0 x_t (Suc j))"
    by (simp only: Suc.IH) (simp add: accumulate_grad_def iteration_gradient_def add.assoc)
  finally show ?case
    by simp
qed

lemma state_after_unstopped:
  "state_after env y_0 x_t n = Some st \<Longrightarrow> st = unstopped env y_0 x_t n"
proof (induction n arbitrary: st)
  case 0
  then show ?case by simp
next
  case (Suc n)
  then show ?case
    by (auto simp: iteration_def Let_def split: option.splits if_splits loop_step.splits)
qed

lemma state_after_prefix:
  "state_after env y_0 x_t n = Some st \<Longrightarrow> m \<le> n \<Longrightarrow> \<exists>st'. state_after env y_0 x_t m = Some st'"
proof (induction n arbitrary: st)
  case 0
  then show ?case by simp
next
  case (Suc n)
  show ?case
  proof (cases "m = Suc n")
    case True
    with Suc.prems show ?thesis by simp
  next
    case False
    with Suc.prems have "m \<le> n" by simp
    moreover from Suc.prems obtain s where "state_after env y_0 x_t n = Some s"
      by (auto split: option.splits)
    ultimately show ?thesis using Suc.IH by blast
  qed
qed

text \<open>The loop from any state: a general version of the run.\<close>

lemma iterate_loop_Continue:
  "iteration env y_0 x_t st = Continue st' \<Longrightarrow>
     iterate_loop env y_0 x_t (Suc n) st = iterate_loop env y_0 x_t n st'"
  by simp


lemma iterate_loop_state_after:
  "state_after env y_0 x_t k = Some st \<Longrightarrow> k \<le> n \<Longrightarrow>
     iterate_loop env y_0 x_t n (initial_state env y_0) = iterate_loop env y_0 x_t (n - k) st"
proof (induction k arbitrary: st)
  case 0
  then show ?case by simp
next
  case (Suc k)
  from Suc.prems(1) obtain sp where sp: "state_after env y_0 x_t k = Some sp"
    and it: "iteration env y_0 x_t sp = Continue st"
    by (auto split: option.splits loop_step.splits)
  from Suc.prems(2) have "n - k = Suc (n - Suc k)"
    by simp
  then have "iterate_loop env y_0 x_t (n - k) sp = iterate_loop env y_0 x_t (n - Suc k) st"
    using it by simp
  moreover have "iterate_loop env y_0 x_t n (initial_state env y_0) =
      iterate_loop env y_0 x_t (n - k) sp"
    using Suc.IH [OF sp] Suc.prems(2) by simp
  ultimately show ?case by simp
qed

lemma iterate_loop_completes:
  "state_after env y_0 x_t n = Some st \<Longrightarrow>
     iterate_loop env y_0 x_t n (initial_state env y_0) = x_0 st"
  using iterate_loop_state_after [of env y_0 x_t n st n] by simp

lemma iterate_loop_returns:
  assumes "state_after env y_0 x_t k = Some st" "k < n" "iteration env y_0 x_t st = Return x"
  shows "iterate_loop env y_0 x_t n (initial_state env y_0) = x"
proof -
  from assms(2) have "n - k = Suc (n - Suc k)"
    by simp
  then have "iterate_loop env y_0 x_t (n - k) st = x"
    using assms(3) by simp
  then show ?thesis
    using iterate_loop_state_after [OF assms(1), of n] assms(2) by simp
qed

lemma state_after_Suc_curpsn:
  assumes "state_after env y_0 (Some xt) (Suc k) = Some sc"
  shows "curpsn sc = psnr env (x_0 (unstopped env y_0 (Some xt) k)) xt"
  using state_after_unstopped [OF assms] by simp

lemma state_after_Suc_passed:
  assumes "earlystop env" "state_after env y_0 (Some xt) (Suc k) = Some sc"
  shows "curpsn (unstopped env y_0 (Some xt) k) \<le> psnr env (x_0 (unstopped env y_0 (Some xt) k)) xt"
proof -
  from assms(2) obtain sp where sp: "state_after env y_0 (Some xt) k = Some sp"
    and it: "iteration env y_0 (Some xt) sp = Continue sc"
    by (auto split: option.splits loop_step.splits)
  from it assms(1) have "\<not> psnr env (x_0 sp) xt < curpsn sp"
    by (auto simp: iteration_def Let_def split: if_splits)
  then show ?thesis
    using state_after_unstopped [OF sp] by simp
qed

text \<open>
  C5 (as amended). With \<open>iterates = 0\<close>, and a step size and a momentum that
  \<open>torch.optim.SGD\<close> accepts (neither is negative), \<open>reconstruction(y0, x_t=None)\<close>
  returns the initial estimate \<open>fbp(y0)\<close>: the loop body is never entered.
\<close>

theorem reconstruction_zero_iterates:
  assumes "iterates env = 0" "0 \<le> var_step env" "0 \<le> var_momentum env"
  shows "reconstruction env y_0 None = Inr (fbp_op_mod env y_0)"
  using assms by (simp add: reconstruction_def initial_state_def)

text \<open>
  C6. With a reference image and early stopping enabled: if iteration \<open>i\<close> was carried
  out on the estimate \<open>x_0 sp\<close>, iteration \<open>i + 1\<close> is entered with the estimate
  \<open>x_0 sc\<close>, and the PSNR of \<open>x_0 sc\<close> is lower than that of \<open>x_0 sp\<close>, then
  iteration \<open>i + 1\<close> returns at once, without a gradient step, and the result of
  \<open>reconstruction\<close> is the current estimate \<open>x_0 sc\<close>, not the previous one.
\<close>

theorem reconstruction_early_stop_returns_current:
  assumes "earlystop env" "0 \<le> var_step env" "0 \<le> var_momentum env"
    and "Suc i < nat (iterates env)"
    and "state_after env y_0 (Some xt) i = Some sp"
    and "state_after env y_0 (Some xt) (Suc i) = Some sc"
    and "psnr env (x_0 sc) xt < psnr env (x_0 sp) xt"
  shows "iteration env y_0 (Some xt) sc = Return (x_0 sc) \<and>
         reconstruction env y_0 (Some xt) = Inr (x_0 sc) \<and>
         x_0 sc \<noteq> x_0 sp"
proof -
  have "curpsn sc = psnr env (x_0 sp) xt"
    using state_after_Suc_curpsn [OF assms(6)] state_after_unstopped [OF assms(5)] by simp
  then have ret: "iteration env y_0 (Some xt) sc = Return (x_0 sc)"
    using assms(1,7) by (simp add: iteration_def Let_def)
  have "iterate_loop env y_0 (Some xt) (nat (iterates env)) (initial_state env y_0) = x_0 sc"
    using assms(6,4) ret by (rule iterate_loop_returns)
  then have "reconstruction env y_0 (Some xt) = Inr (x_0 sc)"
    using assms(2,3) by (simp add: reconstruction_def)
  moreover have "x_0 sc \<noteq> x_0 sp"
    using assms(7) by auto
  ultimately show ?thesis
    using ret by simp
qed

lemma psnr_chain:
  assumes "earlystop env" "state_after env y_0 (Some xt) n = Some st" "i \<le> j" "j < n"
  shows "psnr env (x_0 (unstopped env y_0 (Some xt) i)) xt \<le>
         psnr env (x_0 (unstopped env y_0 (Some xt) j)) xt"
  using assms(3,4)
proof (induction j)
  case 0
  then show ?case by simp
next
  case (Suc j)
  show ?case
  proof (cases "i = Suc j")
    case True
    then show ?thesis by simp
  next
    case False
    with Suc.prems have ij: "i \<le> j" "j < n" by simp_all
    from Suc.prems have "Suc (Suc j) \<le> n" by simp
    then obtain s where s: "state_after env y_0 (Some xt) (Suc (Suc j)) = Some s"
      using state_after_prefix [OF assms(2)] by blast
    have "curpsn (unstopped env y_0 (Some xt) (Suc j)) \<le>
        psnr env (x_0 (unstopped env y_0 (Some xt) (Suc j))) xt"
      using assms(1) s by (rule state_after_Suc_passed)
    then have "psnr env (x_0 (unstopped env y_0 (Some xt) j)) xt \<le>
        psnr env (x_0 (unstopped env y_0 (Some xt) (Suc j))) xt"
      by simp
    with Suc.IH [OF ij] show ?thesis by simp
  qed
qed

lemma psnr_first_nonneg:
  assumes "earlystop env" "state_after env y_0 (Some xt) n = Some st" "0 < n"
  shows "0 \<le> psnr env (x_0 (unstopped env y_0 (Some xt) 0)) xt"
proof -
  from assms(3) have "Suc 0 \<le> n" by simp
  then obtain s where s: "state_after env y_0 (Some xt) (Suc 0) = Some s"
    using state_after_prefix [OF assms(2)] by blast
  have "curpsn (unstopped env y_0 (Some xt) 0) \<le> psnr env (x_0 (unstopped env y_0 (Some xt) 0)) xt"
    using assms(1) s by (rule state_after_Suc_passed)
  then show ?thesis
    by (simp add: initial_state_def)
qed

text \<open>
  C7 (as amended). With early stopping enabled and a reference image, the PSNR is
  non-negative and non-decreasing over the estimates on which an iteration was carried
  out (a gradient step taken): if \<open>n\<close> iterations were carried out, then for
  \<open>i \<le> j < n\<close> the estimates entering iterations \<open>i\<close> and \<open>j\<close> satisfy
  \<open>0 \<le> psnr x\<^sub>i \<le> psnr x\<^sub>j\<close>. Nothing is said of the returned estimate.
\<close>

theorem early_stop_monotone_before_return:
  assumes "earlystop env" "state_after env y_0 (Some xt) n = Some st" "i \<le> j" "j < n"
    and "state_after env y_0 (Some xt) i = Some si"
    and "state_after env y_0 (Some xt) j = Some sj"
  shows "0 \<le> psnr env (x_0 si) xt \<and> psnr env (x_0 si) xt \<le> psnr env (x_0 sj) xt"
proof -
  have si: "si = unstopped env y_0 (Some xt) i" and sj: "sj = unstopped env y_0 (Some xt) j"
    using assms(5,6) by (simp_all add: state_after_unstopped)
  have "0 < n" using assms(3,4) by simp
  then have "0 \<le> psnr env (x_0 (unstopped env y_0 (Some xt) 0)) xt"
    using assms(1,2) psnr_first_nonneg by blast
  moreover have "psnr env (x_0 (unstopped env y_0 (Some xt) 0)) xt \<le> psnr env (x_0 si) xt"
    unfolding si using assms(1,2) _ _
  proof (rule psnr_chain)
    show "0 \<le> i" by simp
    show "i < n" using assms(3,4) by simp
  qed
  moreover have "psnr env (x_0 si) xt \<le> psnr env (x_0 sj) xt"
    unfolding si sj using assms(1-4) by (rule psnr_chain)
  ultimately show ?thesis by simp
qed

lemma state_after_no_reference:
  "state_after env y_0 None n = Some (unstopped env y_0 None n)"
  by (induction n) (simp_all add: iteration_def Let_def)

text \<open>
  C8. The gradient buffer of \<open>x_0\<close> is never reset in the loop: after iteration \<open>j\<close> it
  holds the sum of the gradients (regulariser term plus data term) computed at
  iterations \<open>0, \<dots>, j\<close>, and the SGD step of iteration \<open>j\<close> is applied to that sum;
  without momentum, \<open>x\<^sub>j\<^sub>+\<^sub>1 = x\<^sub>j - lr * (g\<^sub>0 + \<dots> + g\<^sub>j)\<close>. The states
  \<open>unstopped\<close> are those of every run that gets that far, and without a reference image
  the result of \<open>reconstruction\<close> is the last of them.
\<close>

theorem gradient_buffer_accumulates:
  "x_grad (unstopped env y_0 x_t (Suc j)) =
      Some (\<Sum>i\<le>j. iteration_gradient env y_0 x_t i) \<and>
   x_0 (unstopped env y_0 x_t (Suc j)) =
      fst (sgd_step (var_step env) (var_momentum env) (x_0 (unstopped env y_0 x_t j))
             (\<Sum>i\<le>j. iteration_gradient env y_0 x_t i)
             (momentum_buffer (unstopped env y_0 x_t j))) \<and>
   (var_momentum env = 0 \<longrightarrow>
      x_0 (unstopped env y_0 x_t (Suc j)) =
        x_0 (unstopped env y_0 x_t j) -
          var_step env *\<^sub>R (\<Sum>i\<le>j. iteration_gradient env y_0 x_t i)) \<and>
   (\<forall>st. state_after env y_0 x_t (Suc j) = Some st \<longrightarrow> st = unstopped env y_0 x_t (Suc j)) \<and>
   (0 \<le> var_step env \<and> 0 \<le> var_momentum env \<and> nat (iterates env) = Suc j \<longrightarrow>
      reconstruction env y_0 None = Inr (x_0 (unstopped env y_0 None (Suc j))))"
proof -
  let ?G = "\<Sum>i\<le>j. iteration_gradient env y_0 x_t i"
  have buf: "x_grad (unstopped env y_0 x_t (Suc j)) = Some ?G"
    by (rule unstopped_grad)
  have "Some (accumulate_grad (x_grad (unstopped env y_0 x_t j))
            (lambd *\<^sub>R self_grad env (x_0 (unstopped env y_0 x_t j))) +
          fwd_adjoint env (fwd_op_mod env (x_0 (unstopped env y_0 x_t j)) - y_0)) = Some ?G"
    using buf by (simp only: unstopped.simps gradient_step_grad track_psnr_fields)
  then have step: "x_0 (unstopped env y_0 x_t (Suc j)) =
      fst (sgd_step (var_step env) (var_momentum env) (x_0 (unstopped env y_0 x_t j)) ?G
             (momentum_buffer (unstopped env y_0 x_t j)))"
    by (simp add: gradient_step_x)
  have plain: "var_momentum env = 0 \<longrightarrow>
      x_0 (unstopped env y_0 x_t (Suc j)) = x_0 (unstopped env y_0 x_t j) - var_step env *\<^sub>R ?G"
    by (simp only: step) (simp add: sgd_step_def)
  have run: "\<forall>st. state_after env y_0 x_t (Suc j) = Some st \<longrightarrow> st = unstopped env y_0 x_t (Suc j)"
    using state_after_unstopped by blast
  have res: "0 \<le> var_step env \<and> 0 \<le> var_momentum env \<and> nat (iterates env) = Suc j \<longrightarrow>
      reconstruction env y_0 None = Inr (x_0 (unstopped env y_0 None (Suc j)))"
    using iterate_loop_completes [OF state_after_no_reference, of env y_0 "Suc j"]
    by (simp add: reconstruction_def)
  from buf step plain run res show ?thesis
    by blast
qed

lemma state_after_Suc_unstopped:
  assumes "state_after env y_0 (Some xt) n = Some (unstopped env y_0 (Some xt) n)"
    and "\<not> (earlystop env \<and>
            psnr env (x_0 (unstopped env y_0 (Some xt) n)) xt < curpsn (unstopped env y_0 (Some xt) n))"
  shows "state_after env y_0 (Some xt) (Suc n) = Some (unstopped env y_0 (Some xt) (Suc n))"
  using assms by (simp add: iteration_def Let_def)

lemma demo_initial:
  "initial_state demo_env (1 / 2) =
     \<lparr>x_0 = 1 / 2, x_grad = None, momentum_buffer = None, prevpsn = 0, curpsn = 0\<rparr>"
  by (simp add: initial_state_def demo_env_def)

lemma demo_step_1:
  "x_0 (unstopped demo_env (1 / 2) x_t (Suc 0)) = 1"
  "x_grad (unstopped demo_env (1 / 2) x_t (Suc 0)) = Some (- 1)"
  by (simp_all add: demo_initial gradient_step_def Let_def sgd_step_def accumulate_grad_def
      lambd_def)
    (simp_all add: demo_env_def)

lemma demo_step_2:
  "x_0 (unstopped demo_env (1 / 2) x_t (Suc (Suc 0))) = 7 / 4"
  "x_grad (unstopped demo_env (1 / 2) x_t (Suc (Suc 0))) = Some (- 3 / 2)"
  by (simp_all add: demo_initial gradient_step_def Let_def sgd_step_def accumulate_grad_def
      lambd_def)
    (simp_all add: demo_env_def)

lemma demo_psnr:
  "psnr demo_env (1 / 2) 0 = 10 * log 10 4"
  "psnr demo_env 1 0 = 0"
  "psnr demo_env (1 / 2) (3 / 2) = 0"
  "psnr demo_env 1 (3 / 2) = 10 * log 10 4"
  by (simp_all add: demo_env_def power2_eq_square)

lemma demo_curpsn:
  "curpsn (unstopped demo_env (1 / 2) (Some xt) (Suc 0)) = psnr demo_env (1 / 2) xt"
  by (simp add: demo_initial)

lemma demo_flags:
  "earlystop demo_env" "0 \<le> var_step demo_env" "0 \<le> var_momentum demo_env"
  "nat (iterates demo_env) = 3"
  by (simp_all add: demo_env_def)

lemma demo_state_after_1:
  "state_after demo_env (1 / 2) (Some 0) (Suc 0) = Some (unstopped demo_env (1 / 2) (Some 0) (Suc 0))"
proof (rule state_after_Suc_unstopped)
  show "state_after demo_env (1 / 2) (Some 0) 0 = Some (unstopped demo_env (1 / 2) (Some 0) 0)"
    by simp
  show "\<not> (earlystop demo_env \<and>
        psnr demo_env (x_0 (unstopped demo_env (1 / 2) (Some 0) 0)) 0
        < curpsn (unstopped demo_env (1 / 2) (Some 0) 0))"
    by (simp add: demo_initial demo_psnr)
qed

lemma demo_state_after_1':
  "state_after demo_env (1 / 2) (Some (3 / 2)) (Suc 0) =
     Some (unstopped demo_env (1 / 2) (Some (3 / 2)) (Suc 0))"
proof (rule state_after_Suc_unstopped)
  show "state_after demo_env (1 / 2) (Some (3 / 2)) 0 =
      Some (unstopped demo_env (1 / 2) (Some (3 / 2)) 0)"
    by simp
  show "\<not> (earlystop demo_env \<and>
        psnr demo_env (x_0 (unstopped demo_env (1 / 2) (Some (3 / 2)) 0)) (3 / 2)
        < curpsn (unstopped demo_env (1 / 2) (Some (3 / 2)) 0))"
    by (simp add: demo_initial demo_psnr)
qed

lemma demo_state_after_2:
  "state_after demo_env (1 / 2) (Some (3 / 2)) (Suc (Suc 0)) =
     Some (unstopped demo_env (1 / 2) (Some (3 / 2)) (Suc (Suc 0)))"
proof (rule state_after_Suc_unstopped)
  show "state_after demo_env (1 / 2) (Some (3 / 2)) (Suc 0) =
      Some (unstopped demo_env (1 / 2) (Some (3 / 2)) (Suc 0))"
    by (rule demo_state_after_1')
  show "\<not> (earlystop demo_env \<and>
        psnr demo_env (x_0 (unstopped demo_env (1 / 2) (Some (3 / 2)) (Suc 0))) (3 / 2)
        < curpsn (unstopped demo_env (1 / 2) (Some (3 / 2)) (Suc 0)))"
    by (simp only: demo_curpsn demo_step_1 demo_psnr) simp
qed

lemma demo_drop:
  "psnr demo_env (x_0 (unstopped demo_env (1 / 2) (Some 0) (Suc 0))) 0
      < psnr demo_env (x_0 (unstopped demo_env (1 / 2) (Some 0) 0)) 0"
proof -
  have "x_0 (unstopped demo_env (1 / 2) (Some 0) 0) = 1 / 2"
    by (simp add: demo_initial)
  then show ?thesis
    by (simp only: demo_step_1 demo_psnr) simp
qed

text \<open>
  Counterexample to C5 as stated (for every configuration): the optimizer is constructed
  before the loop, so with a negative step size the call raises \<open>ValueError\<close> even
  with \<open>iterates = 0\<close>, and returns no estimate.
\<close>

theorem reconstruction_zero_iterates_counterexample:
  "iterates (demo_env\<lparr>iterates := 0, var_step := - 1 / 2\<rparr>) = 0 \<and>
   reconstruction (demo_env\<lparr>iterates := 0, var_step := - 1 / 2\<rparr>) (1 / 2) None =
     Inl ValueError \<and>
   reconstruction (demo_env\<lparr>iterates := 0, var_step := - 1 / 2\<rparr>) (1 / 2) None \<noteq>
     Inr (fbp_op_mod (demo_env\<lparr>iterates := 0, var_step := - 1 / 2\<rparr>) (1 / 2))"
  by (simp add: reconstruction_def demo_env_def)

text \<open>Witness for C5 as amended: the one-pixel problem with \<open>iterates = 0\<close>.\<close>

theorem reconstruction_zero_iterates_witness:
  "iterates (demo_env\<lparr>iterates := 0\<rparr>) = 0 \<and>
   reconstruction (demo_env\<lparr>iterates := 0\<rparr>) (1 / 2) None = Inr (1 / 2)"
  using reconstruction_zero_iterates [of "demo_env\<lparr>iterates := 0\<rparr>" "1 / 2"]
  by (simp add: demo_env_def)

text \<open>
  Witness for C6: from the estimate \<open>1/2\<close> with reference \<open>0\<close>, the first step moves to
  \<open>1\<close>, the PSNR falls from \<open>10 log\<^sub>1\<^sub>0 4\<close> to \<open>0\<close>, and \<open>1\<close> is returned.
\<close>

theorem reconstruction_early_stop_returns_current_witness:
  "psnr demo_env 1 0 < psnr demo_env (1 / 2) 0 \<and>
   iteration demo_env (1 / 2) (Some 0) (unstopped demo_env (1 / 2) (Some 0) (Suc 0)) = Return 1 \<and>
   reconstruction demo_env (1 / 2) (Some 0) = Inr 1"
proof -
  have n: "Suc 0 < nat (iterates demo_env)"
    by (simp add: demo_flags)
  have s0: "state_after demo_env (1 / 2) (Some 0) 0 = Some (unstopped demo_env (1 / 2) (Some 0) 0)"
    by simp
  have "psnr demo_env 1 0 < psnr demo_env (1 / 2) 0"
    by (simp only: demo_psnr) simp
  with reconstruction_early_stop_returns_current
    [OF demo_flags(1-3) n s0 demo_state_after_1 demo_drop]
  show ?thesis
    by (simp only: demo_step_1)
qed

text \<open>
  Counterexample to C7 as stated: in the same run, iteration 0 is carried out on the
  estimate \<open>1/2\<close>, and the returned estimate \<open>1\<close> has a strictly lower PSNR than
  \<open>1/2\<close>: the metric decreases over the iterates performed.
\<close>

theorem early_stop_not_monotone_counterexample:
  "state_after demo_env (1 / 2) (Some 0) (Suc 0) =
     Some (unstopped demo_env (1 / 2) (Some 0) (Suc 0)) \<and>
   x_0 (unstopped demo_env (1 / 2) (Some 0) 0) = 1 / 2 \<and>
   reconstruction demo_env (1 / 2) (Some 0) = Inr 1 \<and>
   psnr demo_env 1 0 < psnr demo_env (1 / 2) 0"
proof -
  have lt: "psnr demo_env 1 0 < psnr demo_env (1 / 2) 0"
    by (simp only: demo_psnr) simp
  have "track_psnr demo_env (Some 0) (unstopped demo_env (1 / 2) (Some 0) (Suc 0)) =
      (unstopped demo_env (1 / 2) (Some 0) (Suc 0))\<lparr>prevpsn := psnr demo_env (1 / 2) 0,
         curpsn := psnr demo_env 1 0\<rparr>"
    by (simp only: track_psnr_def option.case demo_curpsn demo_step_1)
  then have "iteration demo_env (1 / 2) (Some 0) (unstopped demo_env (1 / 2) (Some 0) (Suc 0)) =
      Return 1"
    using lt demo_flags(1) by (simp del: unstopped.simps add: iteration_def Let_def demo_step_1)
  then have "iterate_loop demo_env (1 / 2) (Some 0) 3 (initial_state demo_env (1 / 2)) = 1"
    using iterate_loop_returns [OF demo_state_after_1, of 3] by simp
  then have "reconstruction demo_env (1 / 2) (Some 0) = Inr 1"
    using demo_flags by (simp add: reconstruction_def not_less)
  then show ?thesis
    using demo_state_after_1 lt by (simp del: unstopped.simps add: demo_step_1) (simp add: demo_initial)
qed

text \<open>
  Witness for C7 as amended: with reference \<open>3/2\<close> two iterations are carried out, on
  the estimates \<open>1/2\<close> and \<open>1\<close>, whose PSNR values are \<open>0\<close> and \<open>10 log\<^sub>1\<^sub>0 4\<close>.
\<close>

theorem early_stop_monotone_before_return_witness:
  "0 \<le> psnr demo_env (1 / 2) (3 / 2) \<and> psnr demo_env (1 / 2) (3 / 2) \<le> psnr demo_env 1 (3 / 2)"
proof -
  have s0: "state_after demo_env (1 / 2) (Some (3 / 2)) 0 =
      Some (unstopped demo_env (1 / 2) (Some (3 / 2)) 0)"
    by simp
  have x0: "x_0 (unstopped demo_env (1 / 2) (Some (3 / 2)) 0) = 1 / 2"
    by (simp add: demo_initial)
  have "0 \<le> Suc 0" "Suc 0 < Suc (Suc 0)"
    by simp_all
  from early_stop_monotone_before_return
    [OF demo_flags(1) demo_state_after_2 this s0 demo_state_after_1']
  show ?thesis
    by (simp only: demo_step_1 x0)
qed

lemma demo_gradients:
  "iteration_gradient demo_env (1 / 2) None 0 = - 1"
  "iteration_gradient demo_env (1 / 2) None (Suc 0) = - 1 / 2"
proof -
  have x0: "x_0 (unstopped demo_env (1 / 2) None 0) = 1 / 2"
    by (simp add: demo_initial)
  show "iteration_gradient demo_env (1 / 2) None 0 = - 1"
    by (simp only: iteration_gradient_def x0) (simp add: demo_env_def lambd_def)
  show "iteration_gradient demo_env (1 / 2) None (Suc 0) = - 1 / 2"
    by (simp only: iteration_gradient_def demo_step_1) (simp add: demo_env_def lambd_def)
qed

text \<open>
  Witness for C8: the gradients of iterations 0 and 1 are \<open>-1\<close> and \<open>-1/2\<close>; after
  iteration 1 the buffer holds their sum and the estimate is \<open>1 - (1/2) * (-3/2)\<close>.
\<close>

theorem gradient_buffer_accumulates_witness:
  "x_grad (unstopped demo_env (1 / 2) None (Suc (Suc 0))) =
     Some (iteration_gradient demo_env (1 / 2) None 0 +
           iteration_gradient demo_env (1 / 2) None (Suc 0)) \<and>
   iteration_gradient demo_env (1 / 2) None 0 = - 1 \<and>
   iteration_gradient demo_env (1 / 2) None (Suc 0) = - 1 / 2 \<and>
   x_0 (unstopped demo_env (1 / 2) None (Suc (Suc 0))) = 1 - (1 / 2) * (- 1 + - 1 / 2)"
proof -
  have "var_momentum demo_env = 0" "var_step demo_env = 1 / 2"
    by (simp_all add: demo_env_def)
  with gradient_buffer_accumulates [of demo_env "1 / 2" None "Suc 0"]
  show ?thesis
    by (simp del: unstopped.simps add: demo_gradients demo_step_1)
qed

section \<open>Verification: convexity of \<open>ACR.forward\<close>\<close>

lemma at3_tab3:
  "at3 (tab3 C H W f) c i j =
     (if c < C \<and> 0 \<le> i \<and> nat i < H \<and> 0 \<le> j \<and> nat j < W then f c (nat i) (nat j) else 0)"
  by (auto simp: at3_def tab3_def)

lemma has_shape_tab3: "has_shape C H W (tab3 C H W f)"
  by (auto simp: has_shape_def tab3_def)

lemma tab3_at3:
  assumes "has_shape C H W x"
  shows "x = tab3 C H W (\<lambda>c i j. at3 x c (int i) (int j))"
proof (rule nth_equalityI)
  show "length x = length (tab3 C H W (\<lambda>c i j. at3 x c (int i) (int j)))"
    using assms by (simp add: has_shape_def tab3_def)
next
  fix c assume c: "c < length x"
  then have xc: "x ! c \<in> set x" by simp
  have lc: "length (x ! c) = H"
    using assms xc by (simp add: has_shape_def)
  have "x ! c = map (\<lambda>i. map (\<lambda>j. at3 x c (int i) (int j)) [0..<W]) [0..<H]"
  proof (rule nth_equalityI)
    show "length (x ! c) = length (map (\<lambda>i. map (\<lambda>j. at3 x c (int i) (int j)) [0..<W]) [0..<H])"
      using lc by simp
  next
    fix i assume i: "i < length (x ! c)"
    then have xi: "x ! c ! i \<in> set (x ! c)" by simp
    have li: "length (x ! c ! i) = W"
      using assms xc xi by (auto simp: has_shape_def)
    have "x ! c ! i = map (\<lambda>j. at3 x c (int i) (int j)) [0..<W]"
      using c i li by (intro nth_equalityI) (simp_all add: at3_def)
    then show "x ! c ! i = map (\<lambda>i. map (\<lambda>j. at3 x c (int i) (int j)) [0..<W]) [0..<H] ! i"
      using i lc by simp
  qed
  then show "x ! c = tab3 C H W (\<lambda>c i j. at3 x c (int i) (int j)) ! c"
    using c assms by (simp add: tab3_def has_shape_def)
qed

lemma spatial_tab3:
  "spatial (tab3 C H W f) = (if C = 0 then (0, 0) else (H, if H = 0 then 0 else W))"
proof (cases "C = 0")
  case True
  then show ?thesis by (simp add: spatial_def tab3_def)
next
  case False
  then have C: "[0..<C] = 0 # [1..<C]"
    by (simp add: upt_conv_Cons)
  show ?thesis
  proof (cases "H = 0")
    case True
    with False C show ?thesis by (simp add: spatial_def tab3_def)
  next
    case h: False
    then have "[0..<H] = 0 # [1..<H]"
      by (simp add: upt_conv_Cons)
    with False C h show ?thesis by (simp add: spatial_def tab3_def)
  qed
qed

lemma tensor_map_tab3:
  "tensor_map g (tab3 C H W f) = tab3 C H W (\<lambda>c i j. g (f c i j))"
  by (simp add: tensor_map_def tab3_def o_def)

lemma map2_upt:
  "map2 h (map f [0..<m]) (map g [0..<n]) = map (\<lambda>i. h (f i) (g i)) [0..<min m n]"
  by (rule nth_equalityI) simp_all

lemma tensor_add_tab3:
  "tensor_add (tab3 C1 H1 W1 f) (tab3 C2 H2 W2 g) =
     tab3 (min C1 C2) (min H1 H2) (min W1 W2) (\<lambda>c i j. f c i j + g c i j)"
  by (simp add: tensor_add_def tab3_def map2_upt)

lemma Conv2d_forward_tab3:
  "Conv2d_forward cv x =
     tab3 (length (effective_weight cv)) (out_size cv (fst (spatial x)))
       (out_size cv (snd (spatial x)))
       (\<lambda>co i j. conv2d_at (effective_weight cv ! co) (bias_at cv co) (pad_before cv) x i j)"
  by (simp add: Conv2d_forward_def tab3_def Let_def)

lemma sum_list_concat_map:
  "sum_list (concat xss) = (\<Sum>xs\<leftarrow>xss. sum_list (xs::'a::monoid_add list))"
  by (induction xss) simp_all

lemma sum_list_concat_tab:
  "sum_list (concat (map (\<lambda>i. map (\<lambda>j. f i j) [0..<W]) [0..<H])) =
     (\<Sum>i\<leftarrow>[0..<H]. \<Sum>j\<leftarrow>[0..<W]. f i j)"
  by (simp add: sum_list_concat_map o_def)

lemma length_concat_tab:
  "length (concat (map (\<lambda>i. map (\<lambda>j. f i j) [0..<W]) [0..<H])) = H * W"
  by (simp add: length_concat o_def sum_list_triv)

lemma pool_tab3:
  "pool (tab3 C H W f) =
     tab3 C 1 1 (\<lambda>c i j. (\<Sum>i\<leftarrow>[0..<H]. \<Sum>j\<leftarrow>[0..<W]. f c i j) / real (H * W))"
  by (simp add: pool_def tab3_def sum_list_concat_tab length_concat_tab)


lemma sum_list_convex:
  fixes fm f1 f2 :: "'a \<Rightarrow> real"
  assumes "\<And>e. e \<in> set xs \<Longrightarrow> fm e \<le> t * f1 e + s * f2 e"
  shows "(\<Sum>e\<leftarrow>xs. fm e) \<le> t * (\<Sum>e\<leftarrow>xs. f1 e) + s * (\<Sum>e\<leftarrow>xs. f2 e)"
  using assms
proof (induction xs)
  case Nil
  then show ?case by simp
next
  case (Cons e xs)
  have "fm e \<le> t * f1 e + s * f2 e"
    using Cons.prems by simp
  moreover have "(\<Sum>e\<leftarrow>xs. fm e) \<le> t * (\<Sum>e\<leftarrow>xs. f1 e) + s * (\<Sum>e\<leftarrow>xs. f2 e)"
    using Cons by simp
  ultimately show ?case
    by (simp add: algebra_simps)
qed

lemma sum_list_affine:
  fixes fm f1 f2 :: "'a \<Rightarrow> real"
  assumes "\<And>e. e \<in> set xs \<Longrightarrow> fm e = t * f1 e + s * f2 e"
  shows "(\<Sum>e\<leftarrow>xs. fm e) = t * (\<Sum>e\<leftarrow>xs. f1 e) + s * (\<Sum>e\<leftarrow>xs. f2 e)"
  using assms
proof (induction xs)
  case Nil
  then show ?case by simp
next
  case (Cons e xs)
  have "fm e = t * f1 e + s * f2 e"
    using Cons.prems by simp
  moreover have "(\<Sum>e\<leftarrow>xs. fm e) = t * (\<Sum>e\<leftarrow>xs. f1 e) + s * (\<Sum>e\<leftarrow>xs. f2 e)"
    using Cons by simp
  ultimately show ?case
    by (simp add: algebra_simps)
qed

lemma enumerate_snd_mem:
  "(i, x) \<in> set (enumerate n xs) \<Longrightarrow> x \<in> set xs"
  by (auto simp: in_set_enumerate_eq)

lemma taps_weight:
  assumes "(c, u, v, w) \<in> set (taps w_o)"
  shows "\<exists>ker\<in>set w_o. \<exists>row\<in>set ker. w \<in> set row"
proof -
  from assms have "\<exists>ker row. (c, ker) \<in> set (enumerate 0 w_o) \<and>
      (u, row) \<in> set (enumerate 0 ker) \<and> (v, w) \<in> set (enumerate 0 row)"
    by (auto simp: taps_def)
  then obtain ker row where "(c, ker) \<in> set (enumerate 0 w_o)"
    "(u, row) \<in> set (enumerate 0 ker)" "(v, w) \<in> set (enumerate 0 row)"
    by blast
  then have "ker \<in> set w_o" "row \<in> set ker" "w \<in> set row"
    by (auto dest: enumerate_snd_mem)
  then show ?thesis
    by blast
qed

lemma taps_nonneg:
  assumes "nonneg4 X" "co < length X" "(c, u, v, w) \<in> set (taps (X ! co))"
  shows "0 \<le> w"
proof -
  from taps_weight [OF assms(3)] obtain ker row
    where "ker \<in> set (X ! co)" "row \<in> set ker" "w \<in> set row"
    by blast
  moreover have "X ! co \<in> set X"
    using assms(2) by simp
  ultimately show ?thesis
    using assms(1) unfolding nonneg4_def by blast
qed

lemma nonneg4_Positive: "nonneg4 (Positive_forward X)"
  by (auto simp: nonneg4_def Positive_forward_def)

lemma conv2d_at_convex:
  assumes w: "\<And>c u v w. (c, u, v, w) \<in> set (taps w_o) \<Longrightarrow> 0 \<le> w"
    and x: "\<And>c i j. at3 xm c i j \<le> t * at3 x1 c i j + (1 - t) * at3 x2 c i j"
  shows "conv2d_at w_o b pad xm i j \<le>
           t * conv2d_at w_o b pad x1 i j + (1 - t) * conv2d_at w_o b pad x2 i j"
proof -
  let ?f = "\<lambda>x (e :: nat \<times> nat \<times> nat \<times> real). case e of (c, u, v, w) \<Rightarrow>
       w * at3 x c (int i + int u - int pad) (int j + int v - int pad)"
  have "sum_list (map (?f xm) (taps w_o)) \<le>
      t * sum_list (map (?f x1) (taps w_o)) + (1 - t) * sum_list (map (?f x2) (taps w_o))"
  proof (rule sum_list_convex)
    fix e assume e: "e \<in> set (taps w_o)"
    obtain c u v w where ev: "e = (c, u, v, w)"
      by (cases e) auto
    have "0 \<le> w" using e w ev by blast
    then have "w * at3 xm c (int i + int u - int pad) (int j + int v - int pad) \<le>
        w * (t * at3 x1 c (int i + int u - int pad) (int j + int v - int pad) +
             (1 - t) * at3 x2 c (int i + int u - int pad) (int j + int v - int pad))"
      using x by (intro mult_left_mono)
    then show "?f xm e \<le> t * ?f x1 e + (1 - t) * ?f x2 e"
      by (simp add: ev algebra_simps)
  qed
  then show ?thesis
    by (simp add: conv2d_at_def algebra_simps)
qed

lemma conv2d_at_affine:
  assumes x: "\<And>c i j. at3 xm c i j = t * at3 x1 c i j + (1 - t) * at3 x2 c i j"
  shows "conv2d_at w_o b pad xm i j =
           t * conv2d_at w_o b pad x1 i j + (1 - t) * conv2d_at w_o b pad x2 i j"
proof -
  let ?f = "\<lambda>x (e :: nat \<times> nat \<times> nat \<times> real). case e of (c, u, v, w) \<Rightarrow>
       w * at3 x c (int i + int u - int pad) (int j + int v - int pad)"
  have "sum_list (map (?f xm) (taps w_o)) =
      t * sum_list (map (?f x1) (taps w_o)) + (1 - t) * sum_list (map (?f x2) (taps w_o))"
  proof (rule sum_list_affine)
    fix e assume e: "e \<in> set (taps w_o)"
    obtain c u v w where ev: "e = (c, u, v, w)"
      by (cases e) auto
    show "?f xm e = t * ?f x1 e + (1 - t) * ?f x2 e"
      by (simp add: ev x algebra_simps)
  qed
  then show ?thesis
    by (simp add: conv2d_at_def algebra_simps)
qed

lemma act_mono:
  assumes "valid_activation a" "x \<le> y"
  shows "act a x \<le> act a y"
proof (cases a)
  case (LeakyReLU s)
  with assms(1) have s: "0 \<le> s" by (simp add: valid_activation_def)
  have "max 0 x \<le> max 0 y" using assms(2) by simp
  moreover have "s * min 0 x \<le> s * min 0 y"
    using assms(2) s by (intro mult_left_mono) simp_all
  ultimately show ?thesis using LeakyReLU by simp
next
  case ReLU
  with assms(2) show ?thesis by simp
qed

lemma act_LeakyReLU_max:
  assumes "0 \<le> s" "s \<le> 1"
  shows "act (LeakyReLU s) v = max v (s * v)"
proof (cases "0 \<le> v")
  case True
  then have "s * v \<le> v" using assms by (simp add: mult_left_le_one_le)
  with True show ?thesis by (simp add: max_def min_def)
next
  case False
  then have "1 * v \<le> s * v"
    using assms(2) by (intro mult_right_mono_neg) simp_all
  then have "v \<le> s * v" by simp
  with False show ?thesis by (simp add: max_def min_def)
qed

lemma act_convex:
  assumes "valid_activation a" "0 \<le> t" "t \<le> 1"
  shows "act a (t * x + (1 - t) * y) \<le> t * act a x + (1 - t) * act a y"
proof (cases a)
  case (LeakyReLU s)
  with assms(1) have s: "0 \<le> s" "s \<le> 1" by (simp_all add: valid_activation_def)
  have t: "0 \<le> 1 - t" using assms(3) by simp
  have 1: "t * x + (1 - t) * y \<le> t * max x (s * x) + (1 - t) * max y (s * y)"
    using assms(2) t by (intro add_mono mult_left_mono) simp_all
  have "s * (t * x + (1 - t) * y) = t * (s * x) + (1 - t) * (s * y)"
    by (simp add: algebra_simps)
  also have "\<dots> \<le> t * max x (s * x) + (1 - t) * max y (s * y)"
    using assms(2) t by (intro add_mono mult_left_mono) simp_all
  finally have 2: "s * (t * x + (1 - t) * y) \<le> t * max x (s * x) + (1 - t) * max y (s * y)" .
  from 1 2 show ?thesis
    unfolding LeakyReLU act_LeakyReLU_max [OF s] by simp
next
  case ReLU
  have t: "0 \<le> 1 - t" using assms(3) by simp
  have 1: "t * x + (1 - t) * y \<le> t * max 0 x + (1 - t) * max 0 y"
    using assms(2) t by (intro add_mono mult_left_mono) simp_all
  have 2: "0 \<le> t * max 0 x + (1 - t) * max 0 y"
    using assms(2) t by simp
  from 1 2 show ?thesis
    unfolding ReLU by simp
qed

lemma act_convex_mono:
  assumes "valid_activation a" "0 \<le> t" "t \<le> 1" "zm \<le> t * z1 + (1 - t) * z2"
  shows "act a zm \<le> t * act a z1 + (1 - t) * act a z2"
proof -
  have "act a zm \<le> act a (t * z1 + (1 - t) * z2)"
    using assms(1,4) by (rule act_mono)
  also have "\<dots> \<le> t * act a z1 + (1 - t) * act a z2"
    using assms(1-3) by (rule act_convex)
  finally show ?thesis .
qed

lemma make_activation_valid:
  "make_activation rt = Inr a \<Longrightarrow> valid_activation a"
  by (auto simp: make_activation_def valid_activation_def split: if_splits)


lemma cvx3_at3:
  assumes "cvx3 t zm z1 z2"
  shows "at3 zm c i j \<le> t * at3 z1 c i j + (1 - t) * at3 z2 c i j"
proof -
  from assms obtain C H W fm f1 f2 where
    z: "zm = tab3 C H W fm" "z1 = tab3 C H W f1" "z2 = tab3 C H W f2"
    and le: "\<And>c i j. c < C \<Longrightarrow> i < H \<Longrightarrow> j < W \<Longrightarrow>
       fm c i j \<le> t * f1 c i j + (1 - t) * f2 c i j"
    unfolding cvx3_def by blast
  show ?thesis
    unfolding z at3_tab3 using le by simp
qed

lemma aff3_at3:
  assumes "aff3 t zm z1 z2"
  shows "at3 zm c i j = t * at3 z1 c i j + (1 - t) * at3 z2 c i j"
proof -
  from assms obtain C H W fm f1 f2 where
    z: "zm = tab3 C H W fm" "z1 = tab3 C H W f1" "z2 = tab3 C H W f2"
    and le: "\<And>c i j. c < C \<Longrightarrow> i < H \<Longrightarrow> j < W \<Longrightarrow>
       fm c i j = t * f1 c i j + (1 - t) * f2 c i j"
    unfolding aff3_def by blast
  show ?thesis
    unfolding z at3_tab3 using le by simp
qed

lemma cvx3_spatial:
  assumes "cvx3 t zm z1 z2"
  shows "spatial zm = spatial z1" "spatial z2 = spatial z1"
  using assms unfolding cvx3_def by (auto simp: spatial_tab3)

lemma aff3_spatial:
  assumes "aff3 t zm z1 z2"
  shows "spatial zm = spatial z1" "spatial z2 = spatial z1"
  using assms unfolding aff3_def by (auto simp: spatial_tab3)

lemma Conv2d_cvx3:
  assumes "cvx3 t zm z1 z2" "nonneg4 (effective_weight cv)"
  shows "cvx3 t (Conv2d_forward cv zm) (Conv2d_forward cv z1) (Conv2d_forward cv z2)"
  unfolding cvx3_def
proof (intro exI conjI allI impI)
  let ?g = "\<lambda>z co i j. conv2d_at (effective_weight cv ! co) (bias_at cv co) (pad_before cv) z i j"
  let ?C = "length (effective_weight cv)"
  let ?H = "out_size cv (fst (spatial z1))"
  let ?W = "out_size cv (snd (spatial z1))"
  show "Conv2d_forward cv zm = tab3 ?C ?H ?W (?g zm)"
    by (simp add: Conv2d_forward_tab3 cvx3_spatial [OF assms(1)])
  show "Conv2d_forward cv z1 = tab3 ?C ?H ?W (?g z1)"
    by (simp add: Conv2d_forward_tab3)
  show "Conv2d_forward cv z2 = tab3 ?C ?H ?W (?g z2)"
    by (simp add: Conv2d_forward_tab3 cvx3_spatial [OF assms(1)])
  fix c i j assume "c < ?C \<and> i < ?H \<and> j < ?W"
  then have c: "c < ?C" by simp
  show "?g zm c i j \<le> t * ?g z1 c i j + (1 - t) * ?g z2 c i j"
  proof (rule conv2d_at_convex)
    fix c' u v w assume "(c', u, v, w) \<in> set (taps (effective_weight cv ! c))"
    with assms(2) c show "0 \<le> w" by (rule taps_nonneg)
  next
    fix c' i' j'
    show "at3 zm c' i' j' \<le> t * at3 z1 c' i' j' + (1 - t) * at3 z2 c' i' j'"
      using assms(1) by (rule cvx3_at3)
  qed
qed

lemma Conv2d_aff3:
  assumes "aff3 t zm z1 z2"
  shows "aff3 t (Conv2d_forward cv zm) (Conv2d_forward cv z1) (Conv2d_forward cv z2)"
  unfolding aff3_def
proof (intro exI conjI allI impI)
  let ?g = "\<lambda>z co i j. conv2d_at (effective_weight cv ! co) (bias_at cv co) (pad_before cv) z i j"
  let ?C = "length (effective_weight cv)"
  let ?H = "out_size cv (fst (spatial z1))"
  let ?W = "out_size cv (snd (spatial z1))"
  show "Conv2d_forward cv zm = tab3 ?C ?H ?W (?g zm)"
    by (simp add: Conv2d_forward_tab3 aff3_spatial [OF assms(1)])
  show "Conv2d_forward cv z1 = tab3 ?C ?H ?W (?g z1)"
    by (simp add: Conv2d_forward_tab3)
  show "Conv2d_forward cv z2 = tab3 ?C ?H ?W (?g z2)"
    by (simp add: Conv2d_forward_tab3 aff3_spatial [OF assms(1)])
  fix c i j assume "c < ?C \<and> i < ?H \<and> j < ?W"
  show "?g zm c i j = t * ?g z1 c i j + (1 - t) * ?g z2 c i j"
    by (rule conv2d_at_affine) (rule aff3_at3 [OF assms])
qed

lemma tensor_add_cvx3:
  assumes "cvx3 t am a1 a2" "aff3 t bm b1 b2"
  shows "cvx3 t (tensor_add am bm) (tensor_add a1 b1) (tensor_add a2 b2)"
proof -
  from assms(1) obtain C H W fm f1 f2 where
    a: "am = tab3 C H W fm" "a1 = tab3 C H W f1" "a2 = tab3 C H W f2"
    and le: "\<And>c i j. c < C \<Longrightarrow> i < H \<Longrightarrow> j < W \<Longrightarrow>
       fm c i j \<le> t * f1 c i j + (1 - t) * f2 c i j"
    unfolding cvx3_def by blast
  from assms(2) obtain C' H' W' gm g1 g2 where
    b: "bm = tab3 C' H' W' gm" "b1 = tab3 C' H' W' g1" "b2 = tab3 C' H' W' g2"
    and eq: "\<And>c i j. c < C' \<Longrightarrow> i < H' \<Longrightarrow> j < W' \<Longrightarrow>
       gm c i j = t * g1 c i j + (1 - t) * g2 c i j"
    unfolding aff3_def by blast
  show ?thesis
    unfolding cvx3_def a b tensor_add_tab3
  proof (intro exI conjI allI impI)
    fix c i j assume r: "c < min C C' \<and> i < min H H' \<and> j < min W W'"
    then have "fm c i j \<le> t * f1 c i j + (1 - t) * f2 c i j"
      "gm c i j = t * g1 c i j + (1 - t) * g2 c i j"
      using le eq by simp_all
    then show "fm c i j + gm c i j \<le>
        t * (f1 c i j + g1 c i j) + (1 - t) * (f2 c i j + g2 c i j)"
      by (simp add: algebra_simps)
  qed (rule refl)+
qed

lemma tensor_map_act_cvx3:
  assumes "cvx3 t zm z1 z2" "valid_activation a" "0 \<le> t" "t \<le> 1"
  shows "cvx3 t (tensor_map (act a) zm) (tensor_map (act a) z1) (tensor_map (act a) z2)"
proof -
  from assms(1) obtain C H W fm f1 f2 where
    z: "zm = tab3 C H W fm" "z1 = tab3 C H W f1" "z2 = tab3 C H W f2"
    and le: "\<And>c i j. c < C \<Longrightarrow> i < H \<Longrightarrow> j < W \<Longrightarrow>
       fm c i j \<le> t * f1 c i j + (1 - t) * f2 c i j"
    unfolding cvx3_def by blast
  show ?thesis
    unfolding cvx3_def z tensor_map_tab3
  proof (intro exI conjI allI impI)
    fix c i j assume "c < C \<and> i < H \<and> j < W"
    then have "fm c i j \<le> t * f1 c i j + (1 - t) * f2 c i j"
      using le by simp
    with assms(2-4) show "act a (fm c i j) \<le> t * act a (f1 c i j) + (1 - t) * act a (f2 c i j)"
      by (rule act_convex_mono)
  qed (rule refl)+
qed

lemma aff3_imp_cvx3: "aff3 t zm z1 z2 \<Longrightarrow> cvx3 t zm z1 z2"
  unfolding aff3_def cvx3_def by (metis order_refl)

lemma pool_cvx3:
  assumes "cvx3 t zm z1 z2"
  shows "cvx3 t (pool zm) (pool z1) (pool z2)"
proof -
  from assms(1) obtain C H W fm f1 f2 where
    z: "zm = tab3 C H W fm" "z1 = tab3 C H W f1" "z2 = tab3 C H W f2"
    and le: "\<And>c i j. c < C \<Longrightarrow> i < H \<Longrightarrow> j < W \<Longrightarrow>
       fm c i j \<le> t * f1 c i j + (1 - t) * f2 c i j"
    unfolding cvx3_def by blast
  show ?thesis
    unfolding cvx3_def z pool_tab3
  proof (intro exI conjI allI impI)
    fix c i j assume "c < C \<and> i < 1 \<and> j < (1::nat)"
    then have c: "c < C" by simp
    have "(\<Sum>i\<leftarrow>[0..<H]. \<Sum>j\<leftarrow>[0..<W]. fm c i j) \<le>
        t * (\<Sum>i\<leftarrow>[0..<H]. \<Sum>j\<leftarrow>[0..<W]. f1 c i j) +
        (1 - t) * (\<Sum>i\<leftarrow>[0..<H]. \<Sum>j\<leftarrow>[0..<W]. f2 c i j)"
    proof (rule sum_list_convex)
      fix i assume "i \<in> set [0..<H]"
      then have i: "i < H" by simp
      show "(\<Sum>j\<leftarrow>[0..<W]. fm c i j) \<le>
          t * (\<Sum>j\<leftarrow>[0..<W]. f1 c i j) + (1 - t) * (\<Sum>j\<leftarrow>[0..<W]. f2 c i j)"
      proof (rule sum_list_convex)
        fix j assume "j \<in> set [0..<W]"
        then show "fm c i j \<le> t * f1 c i j + (1 - t) * f2 c i j"
          using le c i by simp
      qed
    qed
    then have "(\<Sum>i\<leftarrow>[0..<H]. \<Sum>j\<leftarrow>[0..<W]. fm c i j) / real (H * W) \<le>
        (t * (\<Sum>i\<leftarrow>[0..<H]. \<Sum>j\<leftarrow>[0..<W]. f1 c i j) +
        (1 - t) * (\<Sum>i\<leftarrow>[0..<H]. \<Sum>j\<leftarrow>[0..<W]. f2 c i j)) / real (H * W)"
      by (rule divide_right_mono) simp
    then show "(\<Sum>i\<leftarrow>[0..<H]. \<Sum>j\<leftarrow>[0..<W]. fm c i j) / real (H * W) \<le>
        t * ((\<Sum>i\<leftarrow>[0..<H]. \<Sum>j\<leftarrow>[0..<W]. f1 c i j) / real (H * W)) +
        (1 - t) * ((\<Sum>i\<leftarrow>[0..<H]. \<Sum>j\<leftarrow>[0..<W]. f2 c i j) / real (H * W))"
      by (simp add: add_divide_distrib)
  qed (rule refl)+
qed

lemma mix_aff3:
  assumes "has_shape C H W x1" "has_shape C H W x2"
  shows "aff3 t (mix t x1 x2) x1 x2"
proof -
  let ?f1 = "\<lambda>c i j. at3 x1 c (int i) (int j)"
  let ?f2 = "\<lambda>c i j. at3 x2 c (int i) (int j)"
  have x: "x1 = tab3 C H W ?f1" "x2 = tab3 C H W ?f2"
    using assms by (simp_all only: tab3_at3 [symmetric])
  have "mix t (tab3 C H W ?f1) (tab3 C H W ?f2) =
      tab3 C H W (\<lambda>c i j. t * ?f1 c i j + (1 - t) * ?f2 c i j)"
    by (simp add: mix_def tensor_map_tab3 tensor_add_tab3)
  then have "mix t x1 x2 = tab3 C H W (\<lambda>c i j. t * ?f1 c i j + (1 - t) * ?f2 c i j)"
    using x by simp
  with x show ?thesis
    unfolding aff3_def by blast
qed


lemma parametrized_nonneg:
  "parametrized cv \<Longrightarrow> nonneg4 (effective_weight cv)"
  by (simp add: effective_weight_def nonneg4_Positive)

lemma ICNN_layer_forward_cvx3:
  assumes "layer_ok l" "cvx3 t zm z1 z2" "aff3 t xm x1 x2" "0 \<le> t" "t \<le> 1"
  shows "cvx3 t (ICNN_layer_forward l zm xm) (ICNN_layer_forward l z1 x1)
           (ICNN_layer_forward l z2 x2)"
proof -
  have b: "cvx3 t (Conv2d_forward (blue l) zm) (Conv2d_forward (blue l) z1)
      (Conv2d_forward (blue l) z2)"
    using assms(2) assms(1) by (intro Conv2d_cvx3 parametrized_nonneg) (simp_all add: layer_ok_def)
  have o: "aff3 t (Conv2d_forward (orange l) xm) (Conv2d_forward (orange l) x1)
      (Conv2d_forward (orange l) x2)"
    using assms(3) by (rule Conv2d_aff3)
  have "valid_activation (activation l)"
    using assms(1) by (simp add: layer_ok_def)
  with tensor_add_cvx3 [OF b o] show ?thesis
    unfolding ICNN_layer_forward_def Let_def using assms(4,5) by (intro tensor_map_act_cvx3)
qed

lemma fold_layers_cvx3:
  assumes "\<And>l. l \<in> set ls \<Longrightarrow> layer_ok l" "cvx3 t zm z1 z2" "aff3 t xm x1 x2" "0 \<le> t" "t \<le> 1"
  shows "cvx3 t (fold (\<lambda>layer z. ICNN_layer_forward layer z xm) ls zm)
           (fold (\<lambda>layer z. ICNN_layer_forward layer z x1) ls z1)
           (fold (\<lambda>layer z. ICNN_layer_forward layer z x2) ls z2)"
  using assms(1,2)
proof (induction ls arbitrary: zm z1 z2)
  case Nil
  then show ?case by simp
next
  case (Cons l ls)
  have "layer_ok l" using Cons.prems(1) by simp
  then have "cvx3 t (ICNN_layer_forward l zm xm) (ICNN_layer_forward l z1 x1)
           (ICNN_layer_forward l z2 x2)"
    using Cons.prems(2) assms(3-5) by (rule ICNN_layer_forward_cvx3)
  then show ?case
    using Cons.IH Cons.prems(1) by simp
qed

lemma sequence_results_mem:
  "sequence_results rs = Inr vs \<Longrightarrow> v \<in> set vs \<Longrightarrow> Inr v \<in> set rs"
proof (induction rs arbitrary: vs)
  case Nil
  then show ?case by simp
next
  case (Cons r rs)
  then show ?case
    by (auto split: sum.splits)
qed

lemma ICNN_layer_init_ok:
  "ICNN_layer_init ch k st rt bw ow ob = Inr l \<Longrightarrow> layer_ok l"
  by (auto simp: ICNN_layer_init_def layer_ok_def register_Positive_def
      dest: make_activation_valid split: sum.splits)

lemma ACR_init_ok:
  assumes "ACR_init p w = Inr m"
  shows "valid_activation (first_activation m)" "parametrized (last_layer m)"
    "\<And>l. l \<in> set (ICNN_layers m) \<Longrightarrow> layer_ok l"
proof -
  from assms obtain fl a ls ll where
    a: "make_activation (relu_type p) = Inr a"
    and ls: "sequence_results
               (map (\<lambda>i. ICNN_layer_init (channels p) (acr_kernel_size p) (stride p)
                           (relu_type p) (blue_w w i) (orange_w w i) (orange_b w i))
                  [0..<layers p]) = Inr ls"
    and m: "m = \<lparr>first_layer = fl, first_activation = a, ICNN_layers = ls,
                 last_layer = register_Positive ll\<rparr>"
    by (auto simp: ACR_init_def split: sum.splits)
  show "valid_activation (first_activation m)"
    using a m by (simp add: make_activation_valid)
  show "parametrized (last_layer m)"
    using m by (simp add: register_Positive_def)
  fix l assume "l \<in> set (ICNN_layers m)"
  then have "l \<in> set ls" using m by simp
  from sequence_results_mem [OF ls this] show "layer_ok l"
    by (auto dest: ICNN_layer_init_ok [OF sym])
qed

text \<open>
  C1. For every ACR that the constructor builds (activation LeakyReLU with slope 0.2 or
  ReLU; blue and final weights read through \<open>Positive\<close>, hence non-negative) and every
  value of its raw weights, the forward map is convex in the input image: for images
  \<open>x1\<close>, \<open>x2\<close> of one shape \<open>[1, H, W]\<close> and \<open>t\<close> in \<open>[0, 1]\<close>, every entry of
  \<open>R(t x1 + (1 - t) x2)\<close> is at most the same combination of \<open>R(x1)\<close> and \<open>R(x2)\<close>, in
  exact arithmetic.
\<close>

theorem ACR_forward_convex:
  assumes "ACR_init p w = Inr m"
    and "has_shape 1 H W x1" "has_shape 1 H W x2" "0 < H" "0 < W"
    and "0 \<le> t" "t \<le> 1"
  shows "at3 (ACR_forward m (mix t x1 x2)) c i j \<le>
           t * at3 (ACR_forward m x1) c i j + (1 - t) * at3 (ACR_forward m x2) c i j"
proof -
  have x: "aff3 t (mix t x1 x2) x1 x2"
    using assms(2,3) by (rule mix_aff3)
  have "aff3 t (Conv2d_forward (first_layer m) (mix t x1 x2))
      (Conv2d_forward (first_layer m) x1) (Conv2d_forward (first_layer m) x2)"
    using x by (rule Conv2d_aff3)
  then have "cvx3 t (Conv2d_forward (first_layer m) (mix t x1 x2))
      (Conv2d_forward (first_layer m) x1) (Conv2d_forward (first_layer m) x2)"
    by (rule aff3_imp_cvx3)
  then have "cvx3 t (tensor_map (act (first_activation m)) (Conv2d_forward (first_layer m) (mix t x1 x2)))
      (tensor_map (act (first_activation m)) (Conv2d_forward (first_layer m) x1))
      (tensor_map (act (first_activation m)) (Conv2d_forward (first_layer m) x2))"
    using ACR_init_ok(1) [OF assms(1)] assms(6,7) by (rule tensor_map_act_cvx3)
  then have "cvx3 t
      (fold (\<lambda>layer z. ICNN_layer_forward layer z (mix t x1 x2)) (ICNN_layers m)
         (tensor_map (act (first_activation m)) (Conv2d_forward (first_layer m) (mix t x1 x2))))
      (fold (\<lambda>layer z. ICNN_layer_forward layer z x1) (ICNN_layers m)
         (tensor_map (act (first_activation m)) (Conv2d_forward (first_layer m) x1)))
      (fold (\<lambda>layer z. ICNN_layer_forward layer z x2) (ICNN_layers m)
         (tensor_map (act (first_activation m)) (Conv2d_forward (first_layer m) x2)))"
    using ACR_init_ok(3) [OF assms(1)] x assms(6,7) by (intro fold_layers_cvx3)
  then have "cvx3 t (ACR_forward m (mix t x1 x2)) (ACR_forward m x1) (ACR_forward m x2)"
    unfolding ACR_forward_def Let_def
    by (intro pool_cvx3 Conv2d_cvx3 parametrized_nonneg ACR_init_ok(2) [OF assms(1)])
  then show ?thesis
    by (rule cvx3_at3)
qed

lemma demo_acr_init: "ACR_init demo_acr_parameters demo_acr_weights = Inr demo_acr"
  by (simp add: ACR_init_def demo_acr_parameters_def Conv2d_init_def make_activation_def
      ICNN_layer_init_def register_Positive_def demo_acr_def demo_acr_weights_def)

lemma demo_acr_values:
  "ACR_forward demo_acr demo_x1 = [[[28 / 5]]]"
  "ACR_forward demo_acr demo_x2 = [[[142 / 25]]]"
  "ACR_forward demo_acr (mix (1 / 2) demo_x1 demo_x2) = [[[18 / 5]]]"
  by code_simp+

text \<open>
  Witness for C1: on the small ACR, \<open>R(x1) = 28/5\<close>, \<open>R(x2) = 142/25\<close> and the value at
  the midpoint is \<open>18/5\<close>, below the mean \<open>141/25\<close> of the two.
\<close>

theorem ACR_forward_convex_witness:
  "ACR_forward demo_acr demo_x1 = [[[28 / 5]]] \<and>
   ACR_forward demo_acr demo_x2 = [[[142 / 25]]] \<and>
   ACR_forward demo_acr (mix (1 / 2) demo_x1 demo_x2) = [[[18 / 5]]] \<and>
   at3 (ACR_forward demo_acr (mix (1 / 2) demo_x1 demo_x2)) 0 0 0 \<le>
     1 / 2 * at3 (ACR_forward demo_acr demo_x1) 0 0 0 +
     (1 - 1 / 2) * at3 (ACR_forward demo_acr demo_x2) 0 0 0"
proof -
  have "has_shape 1 2 2 demo_x1" "has_shape 1 2 2 demo_x2"
    by (simp_all add: has_shape_def demo_x1_def demo_x2_def)
  from ACR_forward_convex [OF demo_acr_init this, of "1 / 2" 0 0 0] demo_acr_values
  show ?thesis
    by simp
qed

section \<open>Verification: the \<open>Positive\<close> parametrization\<close>

text \<open>
  C2. For the blue convolution of every ICNN layer and for the final convolution of an
  ACR, and for every value \<open>X\<close> of the raw weight tensor (negative entries included), the
  weight the module uses is the entry-wise clip of \<open>X\<close> to minimum 0, it has no negative
  entry, and the forward pass of the module is that of a plain convolution with the
  clipped weight.
\<close>

theorem Positive_effective_weights:
  assumes "(\<exists>ch k st rt bw ow ob l. ICNN_layer_init ch k st rt bw ow ob = Inr l \<and> cv = blue l) \<or>
           (\<exists>p w m. ACR_init p w = Inr m \<and>
              (cv = last_layer m \<or> (\<exists>l\<in>set (ICNN_layers m). cv = blue l)))"
  shows "effective_weight (cv\<lparr>weight := X\<rparr>) = map (map (map (map (\<lambda>v. max v 0)))) X \<and>
         nonneg4 (effective_weight (cv\<lparr>weight := X\<rparr>)) \<and>
         Conv2d_forward (cv\<lparr>weight := X\<rparr>) z =
           Conv2d_forward (cv\<lparr>weight := map (map (map (map (\<lambda>v. max v 0)))) X,
                              parametrized := False\<rparr>) z"
proof -
  have "parametrized cv"
    using assms ICNN_layer_init_ok ACR_init_ok(2,3) unfolding layer_ok_def by blast
  then have e: "effective_weight (cv\<lparr>weight := X\<rparr>) = Positive_forward X"
    by (simp add: effective_weight_def)
  have "Conv2d_forward (cv\<lparr>weight := X\<rparr>) z =
           Conv2d_forward (cv\<lparr>weight := Positive_forward X, parametrized := False\<rparr>) z"
    using \<open>parametrized cv\<close>
    by (simp add: Conv2d_forward_def effective_weight_def bias_at_def pad_before_def out_size_def Let_def
        split: padding.splits)
  with e nonneg4_Positive [of X] show ?thesis
    by (simp add: Positive_forward_def)
qed

text \<open>
  Witness for C2: the blue convolution of the small ACR, whose raw weight has the entry
  \<open>-5\<close>; the effective weight has 0 there.
\<close>

theorem Positive_effective_weights_witness:
  "effective_weight ((blue (ICNN_layers demo_acr ! 0))\<lparr>weight := blue_w demo_acr_weights 0\<rparr>) =
     [[[[0, 0, 0], [0, 1, 0], [0, 0, 0]], [[0, 0, 0], [0, 1, 0], [0, 0, 0]]],
      [[[0, 0, 0], [0, 0, 0], [0, 0, 0]], [[0, 0, 0], [0, 0, 1], [0, 0, 0]]]] \<and>
   nonneg4 (effective_weight
     ((blue (ICNN_layers demo_acr ! 0))\<lparr>weight := blue_w demo_acr_weights 0\<rparr>))"
proof -
  have "\<exists>p w m. ACR_init p w = Inr m \<and>
      (blue (ICNN_layers demo_acr ! 0) = last_layer m \<or>
       (\<exists>l\<in>set (ICNN_layers m). blue (ICNN_layers demo_acr ! 0) = blue l))"
    using demo_acr_init by (intro exI conjI, assumption) (simp add: demo_acr_def)
  then have "(\<exists>ch k st rt bw ow ob l. ICNN_layer_init ch k st rt bw ow ob = Inr l \<and>
        blue (ICNN_layers demo_acr ! 0) = blue l) \<or>
      (\<exists>p w m. ACR_init p w = Inr m \<and>
      (blue (ICNN_layers demo_acr ! 0) = last_layer m \<or>
       (\<exists>l\<in>set (ICNN_layers m). blue (ICNN_layers demo_acr ! 0) = blue l)))"
    by (rule disjI2)
  from Positive_effective_weights [OF this, of "blue_w demo_acr_weights 0" "[]"]
  show ?thesis
    by (simp add: demo_acr_weights_def nonneg4_def)
qed

section \<open>Verification: \<open>SFB.forward\<close>\<close>

lemma map2_map_same:
  "map2 f (map a xs) (map b xs) = map (\<lambda>x. f (a x) (b x)) xs"
  by (induction xs) simp_all

lemma flatten_tensor_map: "flatten (tensor_map f z) = map f (flatten z)"
  by (simp add: flatten_def tensor_map_def map_concat)

lemma kernel_response_eq:
  "kernel_response cv x = map (\<lambda>s. \<Sum>v\<leftarrow>flatten (Conv2d_forward cv s). \<bar>v\<bar>) x"
  by (simp add: kernel_response_def flatten_tensor_map)

lemma fold_py_add:
  "fold (\<lambda>k total. py_add total (map (g k) x)) [0..<Suc n] (PyFloat 0) =
     Tensor1 (map (\<lambda>s. \<Sum>k\<leftarrow>[0..<Suc n]. g k s) x)"
proof (induction n)
  case 0
  show ?case by simp
next
  case (Suc n)
  have "fold (\<lambda>k total. py_add total (map (g k) x)) [0..<Suc (Suc n)] (PyFloat 0) =
      py_add (fold (\<lambda>k total. py_add total (map (g k) x)) [0..<Suc n] (PyFloat 0))
        (map (g (Suc n)) x)"
    by simp
  also have "\<dots> = Tensor1 (map (\<lambda>s. (\<Sum>k\<leftarrow>[0..<Suc n]. g k s) + g (Suc n) s) x)"
    by (simp only: Suc.IH py_add.simps map2_map_same)
  finally show ?case by simp
qed

lemma SFB_total_out:
  assumes "self_n_kernels s = Suc n"
  shows "fold (\<lambda>kernel_idx total. py_add total (kernel_response (conv s ! kernel_idx) x))
           [0..<self_n_kernels s] (PyFloat 0) =
         Tensor1 (map (\<lambda>sm. \<Sum>k\<leftarrow>[0..<Suc n].
                      \<Sum>v\<leftarrow>flatten (Conv2d_forward (conv s ! k) sm). \<bar>v\<bar>) x)"
  unfolding assms kernel_response_eq by (rule fold_py_add)

text \<open>
  C10 (as amended). An SFB holds \<open>N = n_kernels\<close> convolution modules without bias, each
  with one input channel and \<open>n_filters\<close> output channels. For \<open>N \<ge> 1\<close> and a non-empty
  batch, its forward pass returns a tensor of shape \<open>[batch, 1]\<close> whose entry for a batch
  element is \<open>softplus(penalty)\<close> times the sum over all \<open>N\<close> modules of the sum of
  absolute values of the module's convolution response (all its output channels), plus
  \<open>L2net(x)\<close> when the option \<open>L2net\<close> is enabled.
\<close>

theorem SFB_forward_value:
  assumes "0 < n_kernels p" "x \<noteq> []"
  shows "SFB_forward (SFB_trained p ws pen l2) x =
           Inr (map (\<lambda>sm. [spec_SFB_value (SFB_trained p ws pen l2) l2 sm]) x) \<and>
         length (conv (SFB_trained p ws pen l2)) = n_kernels p \<and>
         (\<forall>k<n_kernels p.
            conv (SFB_trained p ws pen l2) ! k =
              \<lparr>in_channels = 1, out_channels = n_filters p, kernel_size = 7, padding = Pad 3,
               weight = ws k, bias = None, parametrized = False\<rparr>)"
proof -
  let ?s = "SFB_trained p ws pen l2"
  from assms(1) obtain n where n: "n_kernels p = Suc n"
    by (cases "n_kernels p") auto
  have nk: "self_n_kernels ?s = Suc n" "length (conv ?s) = Suc n"
    by (simp_all add: SFB_trained_def SFB_init_def n)
  have cv: "\<forall>k<n_kernels p. conv ?s ! k =
              \<lparr>in_channels = 1, out_channels = n_filters p, kernel_size = 7, padding = Pad 3,
               weight = ws k, bias = None, parametrized = False\<rparr>"
    by (simp add: SFB_trained_def SFB_init_def)
  have "SFB_forward ?s x = Inr (map (\<lambda>sm. [spec_SFB_value ?s l2 sm]) x)"
  proof (cases "L2net p")
    case True
    then have l: "L2net (model_parameters ?s)" "self_L2net ?s = Some \<lparr>l2_penalty = l2\<rparr>"
      by (simp_all add: SFB_trained_def SFB_init_def)
    show ?thesis
      using assms(2) l
      by (simp add: SFB_forward_def SFB_total_out [OF nk(1)] Let_def L2net_forward_def
          spec_SFB_value_def nk(2) map2_map_same o_def)
  next
    case False
    then have l: "\<not> L2net (model_parameters ?s)"
      by (simp add: SFB_trained_def SFB_init_def)
    show ?thesis
      using assms(2) l
      by (simp add: SFB_forward_def SFB_total_out [OF nk(1)] Let_def
          spec_SFB_value_def nk(2) o_def)
  qed
  with nk(2) n cv show ?thesis
    by simp
qed


text \<open>With no kernel the forward pass raises: \<open>total_out\<close> is still a float.\<close>

lemma SFB_forward_no_kernels:
  "self_n_kernels s = 0 \<Longrightarrow> SFB_forward s x = Inl AttributeError"
  by (simp add: SFB_forward_def)

lemma demo_sfb_conv:
  "Conv2d_forward (conv demo_sfb ! 0) demo_x1 = [[[1, - 2], [3, 0]], [[- 3, 2], [- 3, 0]]]"
  "Conv2d_forward (conv demo_sfb ! Suc 0) demo_x1 = [[[2, - 4], [6, 0]], [[- 3, 2], [- 3, 0]]]"
  by code_simp+

lemma demo_sfb_sums:
  "(\<Sum>k\<leftarrow>[0..<2]. \<Sum>v\<leftarrow>flatten (Conv2d_forward (conv demo_sfb ! k) demo_x1). \<bar>v\<bar>) = 34"
  "(\<Sum>v\<leftarrow>flatten demo_x1. v\<^sup>2) = 14"
proof -
  have "[0..<2] = [0, 1]"
    by (simp add: upt_rec numeral_eq_Suc)
  then show "(\<Sum>k\<leftarrow>[0..<2]. \<Sum>v\<leftarrow>flatten (Conv2d_forward (conv demo_sfb ! k) demo_x1). \<bar>v\<bar>) = 34"
    by (simp add: demo_sfb_conv flatten_def)
  show "(\<Sum>v\<leftarrow>flatten demo_x1. v\<^sup>2) = 14"
    by (simp add: demo_x1_def flatten_def)
qed

text \<open>
  Witness for C10 as amended: on the small SFB the two modules respond with absolute
  sums 14 and 20, and the image has squared norm 14.
\<close>

theorem SFB_forward_value_witness:
  "SFB_forward demo_sfb [demo_x1] = Inr [[softplus (- 12) * 34 + softplus (- 9) * 14]] \<and>
   length (conv demo_sfb) = 2 \<and>
   out_channels (conv demo_sfb ! 0) = 2"
proof -
  have "0 < n_kernels demo_sfb_parameters" "[demo_x1] \<noteq> []"
    by (simp_all add: demo_sfb_parameters_def)
  from SFB_forward_value [OF this, of demo_sfb_w "- 12" "- 9"]
  have "SFB_forward demo_sfb [demo_x1] = Inr [[spec_SFB_value demo_sfb (- 9) demo_x1]]"
    and l: "length (conv demo_sfb) = 2"
    and "conv demo_sfb ! 0 =
       \<lparr>in_channels = 1, out_channels = 2, kernel_size = 7, padding = Pad 3,
        weight = demo_sfb_w 0, bias = None, parametrized = False\<rparr>"
    by (simp_all add: demo_sfb_def demo_sfb_parameters_def)
  moreover have "spec_SFB_value demo_sfb (- 9) demo_x1 = softplus (- 12) * 34 + softplus (- 9) * 14"
    unfolding spec_SFB_value_def l demo_sfb_sums
    by (simp add: demo_sfb_def SFB_trained_def SFB_init_def demo_sfb_parameters_def)
  ultimately show ?thesis
    by simp
qed

text \<open>
  Counterexample to C10 as stated ("single-output-channel kernels"): with the default
  parameters every convolution module has 32 output channels, and a module of the small
  SFB responds with two channels, both of which enter the sum.
\<close>

theorem SFB_single_output_channel_counterexample:
  "out_channels (conv (SFB_init SFB_default_parameters demo_sfb_w) ! 0) = 32 \<and>
   Conv2d_forward (conv demo_sfb ! 0) demo_x1 = [[[1, - 2], [3, 0]], [[- 3, 2], [- 3, 0]]]"
  by (simp add: demo_sfb_conv) (simp add: SFB_init_def SFB_default_parameters_def)

end
